theory Spec2Isabelle
  imports Complex_Main "HOL-Library.AList"
begin

section \<open>Values\<close>

text \<open>
  The run script builds its parameters from a YAML document, so a parameter value is
  \<^verbatim>\<open>None\<close>, a boolean, an int, a float, a string, a list, a nested dictionary, or
  (under \<^verbatim>\<open>grid_object\<close>) a grid instance handed over by the caller. A float is
  given by the real number it stands for (infinities and NaN are left out); what
  arithmetic does with floats is not fixed here but a parameter of the run loop, see
  \<open>arith\<close> below. A dictionary read by the constructors is an association list in
  insertion order, keyed by strings.

  A grid owns named per-node fields. \<open>at_node\<close> binds a field name to the handle of
  its array, and \<open>arrays\<close> holds the arrays by handle, each with its dtype, so that
  two names for one array are told apart from two equal arrays.
\<close>

type_synonym ndarray = "string \<times> real list"

record model_grid =
  number_of_nodes :: nat
  at_node :: "(string \<times> nat) list"
  arrays :: "ndarray list"

datatype pyval =
    PNone
  | PBool bool
  | PInt int
  | PFloat real
  | PStr string
  | PList "pyval list"
  | PDict "(string \<times> pyval) list"
  | PGrid model_grid

type_synonym pydict = "(string \<times> pyval) list"

datatype error =
    KeyError string
  | AttributeError string
  | TypeError
  | ValueError
  | RuntimeError
  | RecursionError
  | External string

section \<open>Parameter merger\<close>

text \<open>
  \<^verbatim>\<open>merge_user_and_default_params(user_params, default_params)\<close> mutates
  dictionary objects in place and binds default values into the user dictionary by
  reference, so what it does depends on which dictionaries are one object. The merger is
  therefore embedded over a store of dictionary objects: a value met by the merger is a
  reference to a dictionary object, a list (whose elements may again be references), or
  any other value. An address outside the store reads as the empty dictionary; Python
  has no such reference.
\<close>

datatype hval =
    HRef nat
  | HList "hval list"
  | HLeaf pyval

type_synonym hdict = "(string \<times> hval) list"

type_synonym heap = "hdict list"

definition obj :: "heap \<Rightarrow> nat \<Rightarrow> hdict" where
  "obj h a = (if a < length h then h ! a else [])"

fun isinstance_dict :: "hval \<Rightarrow> bool" where
  "isinstance_dict (HRef a) = True"
| "isinstance_dict _ = False"

fun address :: "hval \<Rightarrow> nat" where
  "address (HRef a) = a"
| "address _ = 0"

text \<open>
  The first argument bounds the depth of nested calls, as the interpreter's recursion
  limit does: a call beyond it raises a recursion error before it does anything.
  \<^verbatim>\<open>default_params.keys()\<close> raises an attribute error when the default value is
  not a dictionary. \<open>merge_keys\<close> is the loop over the keys of the default dictionary
  at address \<open>da\<close>, at position \<open>i\<close>; \<open>used\<close> is the size the dictionary had when
  the loop began, and the iterator raises a runtime error when it finds the size changed.
  The test \<^verbatim>\<open>k in default_params\<close> holds for every key the loop yields, since
  nothing is ever deleted.
  \<^verbatim>\<open>user_params[k] = default_params[k]\<close> appends the binding to the user
  dictionary; the value bound is the default's own value, a dictionary by reference.
  The result is the store as the call leaves it and the exception that ended the call,
  if any: a mutation made before a raise stays made.
\<close>

function merge_user_and_default_params :: "nat \<Rightarrow> heap \<Rightarrow> nat \<Rightarrow> hval \<Rightarrow> heap \<times> error option"
  and merge_keys :: "nat \<Rightarrow> heap \<Rightarrow> nat \<Rightarrow> nat \<Rightarrow> nat \<Rightarrow> nat \<Rightarrow> heap \<times> error option" where
  "merge_user_and_default_params 0 h user_params default_params = (h, Some RecursionError)"
| "merge_user_and_default_params (Suc n) h user_params default_params =
     (case default_params of
        HRef da \<Rightarrow> merge_keys n h user_params da 0 (length (obj h da))
      | _ \<Rightarrow> (h, Some (AttributeError ''keys'')))"
| "merge_keys n h user_params da i used =
     (if length (obj h da) \<noteq> used then (h, Some RuntimeError)
      else if used \<le> i then (h, None)
      else
        (case obj h da ! i of (k, dv) \<Rightarrow>
           (case map_of (obj h user_params) k of
              None \<Rightarrow>
                merge_keys n (h[user_params := obj h user_params @ [(k, dv)]])
                  user_params da (Suc i) used
            | Some uv \<Rightarrow>
                if isinstance_dict uv \<and> k \<noteq> ''grid'' then
                  (case merge_user_and_default_params n h (address uv) dv of
                     (h1, None) \<Rightarrow> merge_keys n h1 user_params da (Suc i) used
                   | (h1, Some e) \<Rightarrow> (h1, Some e))
                else merge_keys n h user_params da (Suc i) used)))"
  by pat_completeness auto
termination
  by (relation "measures
        [\<lambda>x. case x of Inl (n, h, u, d) \<Rightarrow> 2 * n | Inr (n, h, u, da, i, used) \<Rightarrow> 2 * n + 1,
         \<lambda>x. case x of Inl (n, h, u, d) \<Rightarrow> 0 | Inr (n, h, u, da, i, used) \<Rightarrow> used - i]")
     auto

declare merge_keys.simps [simp del]

section \<open>Grid library\<close>

text \<open>
  Modelled from the spec: the grid class and its field store belong to the external
  grid library, which is not part of the repository. Section 4.2 of the spec gives what
  the accessor relies on: reading a node field that does not exist fails with a key
  error, and \<^verbatim>\<open>add_zeros\<close> allocates a zero-filled array of the requested dtype
  with one cell per node, attaches it to the grid under the name (replacing a binding of
  that name, as \<^verbatim>\<open>clobber=True\<close> asks) and returns it.
\<close>

definition at_node_getitem :: "model_grid \<Rightarrow> string \<Rightarrow> error + nat" where
  "at_node_getitem g name =
     (case map_of (at_node g) name of None \<Rightarrow> Inl (KeyError name) | Some h \<Rightarrow> Inr h)"

definition add_zeros :: "model_grid \<Rightarrow> string \<Rightarrow> string \<Rightarrow> nat \<times> model_grid" where
  "add_zeros g name dtype =
     (length (arrays g),
      g\<lparr>at_node := AList.update name (length (arrays g)) (at_node g),
        arrays := arrays g @ [(dtype, replicate (number_of_nodes g) 0)]\<rparr>)"

section \<open>Field accessor\<close>

definition get_or_create_node_field ::
  "model_grid \<Rightarrow> string \<Rightarrow> string \<Rightarrow> error + nat \<times> model_grid" where
  "get_or_create_node_field g name dtype =
     (case at_node_getitem g name of
        Inr h \<Rightarrow> Inr (h, g)
      | Inl (KeyError _) \<Rightarrow> Inr (add_zeros g name dtype)
      | Inl e \<Rightarrow> Inl e)"

section \<open>The model object\<close>

text \<open>
  A Python object starts with no attributes; reading one that was never assigned raises
  an attribute error, so every attribute is optional. An attribute holds whatever value
  was assigned to it. \<open>methods\<close> lists the method names that resolve on the object.
  \<open>updates\<close> and \<open>fired\<close> are logs for stating properties: the step sizes passed
  to \<^verbatim>\<open>update\<close>, and the output actions invoked with the time at which each was
  invoked.
\<close>

record model =
  methods :: "string list"
  grid :: "model_grid option"
  plot_interval :: "pyval option"
  next_plot :: "pyval option"
  save_interval :: "pyval option"
  next_save :: "pyval option"
  next_report :: "pyval option"
  ndigits :: "pyval option"
  frame_num :: "pyval option"
  save_num :: "pyval option"
  save_name :: "pyval option"
  display_params :: "pyval option"
  run_duration :: "pyval option"
  dt :: "pyval option"
  current_time :: "pyval option"
  updates :: "pyval list"
  fired :: "(string \<times> pyval) list"

text \<open>
  The library entry points the constructors and the script call are parameters of the
  embedding: building a grid from a specification, reading a grid from a file, reading
  the parameter file. Each returns its value or raises. \<open>subclass_body\<close> stands for
  the statements of \<^verbatim>\<open>BigantrLEM.__init__\<close> that follow the call of the base
  constructor (field initialisation with random numbers, the flow router and the
  eroder, all on the external library): they run only once the base constructor has
  returned.
\<close>

record library =
  create_grid :: "pyval \<Rightarrow> error + model_grid"
  load_grid :: "pyval \<Rightarrow> error + model_grid"
  load_params :: "string \<Rightarrow> error + pydict"
  subclass_body :: "model \<Rightarrow> pydict \<Rightarrow> error + model"

text \<open>
  The arithmetic of the run loop is a parameter too: addition, subtraction and the
  comparisons \<^verbatim>\<open><\<close> and \<^verbatim>\<open>>=\<close> on values, each returning its result or
  raising. On floats Python rounds every sum and difference, and nothing is assumed
  here about how; a property stated for every \<open>arith\<close> holds for that arithmetic as
  well.
\<close>

record arith =
  py_add :: "pyval \<Rightarrow> pyval \<Rightarrow> error + pyval"
  py_sub :: "pyval \<Rightarrow> pyval \<Rightarrow> error + pyval"
  py_lt :: "pyval \<Rightarrow> pyval \<Rightarrow> error + bool"
  py_ge :: "pyval \<Rightarrow> pyval \<Rightarrow> error + bool"

definition LandlabModel_methods :: "string list" where
  "LandlabModel_methods =
     [''__init__'', ''setup_grid'', ''setup_for_output'', ''setup_run_control'',
      ''update'', ''update_until'', ''run'']"

definition BigantrLEM_methods :: "string list" where
  "BigantrLEM_methods = [''__init__'', ''update''] @ LandlabModel_methods"

definition new_object :: "string list \<Rightarrow> model" where
  "new_object ms =
     \<lparr>methods = ms, grid = None, plot_interval = None, next_plot = None,
      save_interval = None, next_save = None, next_report = None, ndigits = None,
      frame_num = None, save_num = None, save_name = None, display_params = None,
      run_duration = None, dt = None, current_time = None, updates = [], fired = []\<rparr>"

definition and_then :: "error + 'a \<Rightarrow> ('a \<Rightarrow> error + 'b) \<Rightarrow> error + 'b" where
  "and_then r f = (case r of Inl e \<Rightarrow> Inl e | Inr x \<Rightarrow> f x)"

definition getattr :: "string \<Rightarrow> 'a option \<Rightarrow> error + 'a" where
  "getattr name a = (case a of None \<Rightarrow> Inl (AttributeError name) | Some v \<Rightarrow> Inr v)"

text \<open>
  \<^verbatim>\<open>v[k]\<close> with a string key: a dictionary looks the key up, a grid looks up a
  field group of that name and has none for the keys used here, and any other value
  cannot be indexed by a string.
\<close>

fun getitem :: "pyval \<Rightarrow> string \<Rightarrow> error + pyval" where
  "getitem (PDict d) k = (case map_of d k of None \<Rightarrow> Inl (KeyError k) | Some v \<Rightarrow> Inr v)"
| "getitem (PGrid g) k = Inl (KeyError k)"
| "getitem _ k = Inl TypeError"

text \<open>
  A call of a method that no class of the repository defines. It raises an attribute
  error unless the name resolves on the object; a method bound by some other code is
  taken to leave the attributes modelled here alone.
\<close>

definition call_method :: "model \<Rightarrow> string \<Rightarrow> error + model" where
  "call_method s name =
     (if name \<in> set (methods s) then Inr s else Inl (AttributeError name))"

definition call_output :: "model \<Rightarrow> string \<Rightarrow> error + model" where
  "call_output s name =
     and_then (call_method s name) (\<lambda>s1.
     and_then (getattr ''current_time'' (current_time s1)) (\<lambda>now.
       Inr (s1\<lparr>fired := fired s1 @ [(name, now)]\<rparr>)))"

section \<open>Grid provisioner\<close>

fun isinstance_ModelGrid :: "pyval \<Rightarrow> bool" where
  "isinstance_ModelGrid (PGrid g) = True"
| "isinstance_ModelGrid _ = False"

text \<open>
  \<^verbatim>\<open>setup_grid\<close> dispatches on \<^verbatim>\<open>grid_params["source"]\<close>. A source
  that is none of the three known ones falls through: nothing is raised and
  \<^verbatim>\<open>self.grid\<close> stays unset. The message printed before the value error is
  not modelled.
\<close>

definition setup_grid :: "library \<Rightarrow> model \<Rightarrow> pyval \<Rightarrow> error + model" where
  "setup_grid lib s grid_params =
     and_then (getitem grid_params ''source'') (\<lambda>source.
       if source = PStr ''create'' then
         and_then (create_grid lib grid_params) (\<lambda>g. Inr (s\<lparr>grid := Some g\<rparr>))
       else if source = PStr ''file'' then
         and_then (getitem grid_params ''grid_file_name'') (\<lambda>name.
         and_then (load_grid lib name) (\<lambda>g. Inr (s\<lparr>grid := Some g\<rparr>)))
       else if source = PStr ''grid_object'' then
         and_then (getitem grid_params ''grid_object'') (\<lambda>obj.
           case obj of
             PGrid g \<Rightarrow> Inr (s\<lparr>grid := Some g\<rparr>)
           | _ \<Rightarrow> Inl ValueError)
       else Inr s)"

section \<open>Output scheduler and run control\<close>

definition setup_for_output :: "model \<Rightarrow> pyval \<Rightarrow> error + model" where
  "setup_for_output s params =
     and_then (getitem params ''plot_interval'') (\<lambda>pl.
     and_then (getitem params ''save_interval'') (\<lambda>sv.
     and_then (getitem params ''ndigits'') (\<lambda>nd.
     and_then (getitem params ''save_name'') (\<lambda>nm.
       Inr (s\<lparr>plot_interval := Some pl, next_plot := Some pl,
              save_interval := Some sv, next_save := Some sv,
              ndigits := Some nd, frame_num := Some (PInt 0), save_num := Some (PInt 0),
              save_name := Some nm, display_params := Some params\<rparr>)))))"

definition setup_run_control :: "model \<Rightarrow> pyval \<Rightarrow> error + model" where
  "setup_run_control s params =
     and_then (getitem params ''run_duration'') (\<lambda>d.
     and_then (getitem params ''dt'') (\<lambda>step.
     and_then (getitem params ''start_time'') (\<lambda>start.
       Inr (s\<lparr>run_duration := Some d, dt := Some step, current_time := Some start\<rparr>))))"

definition LandlabModel_init :: "library \<Rightarrow> model \<Rightarrow> pydict \<Rightarrow> error + model" where
  "LandlabModel_init lib self params =
     and_then (getitem (PDict params) ''grid'') (\<lambda>grid_params.
     and_then (setup_grid lib self grid_params) (\<lambda>s1.
     and_then (call_method s1 ''setup_fields'') (\<lambda>s2.
     and_then (getitem (PDict params) ''output'') (\<lambda>output_params.
     and_then (setup_for_output s2 output_params) (\<lambda>s3.
     and_then (call_method s3 ''instantiate_components'') (\<lambda>s4.
       setup_run_control s4 (PDict params)))))))"

definition BigantrLEM_init :: "library \<Rightarrow> pydict \<Rightarrow> error + model" where
  "BigantrLEM_init lib params =
     and_then (LandlabModel_init lib (new_object BigantrLEM_methods) params) (\<lambda>s.
       subclass_body lib s params)"

text \<open>\<^verbatim>\<open>min(a, b)\<close> keeps \<open>a\<close> unless \<open>b < a\<close>.\<close>

definition py_min :: "arith \<Rightarrow> pyval \<Rightarrow> pyval \<Rightarrow> error + pyval" where
  "py_min ar a b = and_then (py_lt ar b a) (\<lambda>c. Inr (if c then b else a))"

text \<open>
  \<^verbatim>\<open>LandlabModel.update\<close> advances the clock by the step it is given. The
  override in \<^verbatim>\<open>BigantrLEM\<close> first applies uplift and runs the two external
  components on the grid fields and then advances the clock in the same way; that part
  acts on the external library only and is left out.
\<close>

definition update :: "arith \<Rightarrow> model \<Rightarrow> pyval \<Rightarrow> error + model" where
  "update ar s step =
     and_then (getattr ''current_time'' (current_time s)) (\<lambda>now.
     and_then (py_add ar now step) (\<lambda>t.
       Inr (s\<lparr>current_time := Some t, updates := updates s @ [step]\<rparr>)))"

text \<open>
  The loop of \<^verbatim>\<open>update_until\<close>. The test \<^verbatim>\<open>remaining_time > 0.0\<close> is the
  comparison \<^verbatim>\<open>0.0 < remaining_time\<close>. The loop rebinds \<^verbatim>\<open>dt\<close> to the
  clamped step, so the clamped value is the one passed on to the next round. Nothing
  bounds the number of rounds, so the result is optional: \<open>None\<close> is a loop that never
  ends.
\<close>

partial_function (option) update_until_loop ::
  "arith \<Rightarrow> model \<Rightarrow> pyval \<Rightarrow> pyval \<Rightarrow> (error + model) option" where
  "update_until_loop ar s remaining_time step =
     (case py_lt ar (PFloat 0) remaining_time of
        Inl e \<Rightarrow> Some (Inl e)
      | Inr positive \<Rightarrow>
          if positive then
            (case py_min ar step remaining_time of
               Inl e \<Rightarrow> Some (Inl e)
             | Inr clamped \<Rightarrow>
                 (case update ar s clamped of
                    Inl e \<Rightarrow> Some (Inl e)
                  | Inr s1 \<Rightarrow>
                      (case py_sub ar remaining_time clamped of
                         Inl e \<Rightarrow> Some (Inl e)
                       | Inr r \<Rightarrow> update_until_loop ar s1 r clamped)))
          else Some (Inr s))"

declare update_until_loop.simps [code]

definition update_until :: "arith \<Rightarrow> model \<Rightarrow> pyval \<Rightarrow> pyval \<Rightarrow> (error + model) option" where
  "update_until ar s update_to_time step =
     (case and_then (getattr ''current_time'' (current_time s)) (\<lambda>now.
             py_sub ar update_to_time now) of
        Inl e \<Rightarrow> Some (Inl e)
      | Inr remaining_time \<Rightarrow> update_until_loop ar s remaining_time step)"

definition check_report :: "arith \<Rightarrow> model \<Rightarrow> error + model" where
  "check_report ar s =
     and_then (getattr ''current_time'' (current_time s)) (\<lambda>now.
     and_then (getattr ''next_report'' (next_report s)) (\<lambda>nr.
     and_then (py_ge ar now nr) (\<lambda>due.
       if due then call_output s ''report'' else Inr s)))"

definition check_plot :: "arith \<Rightarrow> model \<Rightarrow> error + model" where
  "check_plot ar s =
     and_then (getattr ''current_time'' (current_time s)) (\<lambda>now.
     and_then (getattr ''next_plot'' (next_plot s)) (\<lambda>np.
     and_then (py_ge ar now np) (\<lambda>due.
       if due then
         and_then (call_output s ''plot'') (\<lambda>s1.
         and_then (getattr ''next_plot'' (next_plot s1)) (\<lambda>np1.
         and_then (getattr ''plot_interval'' (plot_interval s1)) (\<lambda>pl.
         and_then (py_add ar np1 pl) (\<lambda>np2.
           Inr (s1\<lparr>next_plot := Some np2\<rparr>)))))
       else Inr s)))"

definition check_save :: "arith \<Rightarrow> model \<Rightarrow> error + model" where
  "check_save ar s =
     and_then (getattr ''current_time'' (current_time s)) (\<lambda>now.
     and_then (getattr ''next_save'' (next_save s)) (\<lambda>ns.
     and_then (py_ge ar now ns) (\<lambda>due.
       if due then
         and_then (getattr ''save_num'' (save_num s)) (\<lambda>n.
         and_then (py_add ar n (PInt 1)) (\<lambda>n1.
           call_output (s\<lparr>save_num := Some n1\<rparr>) ''save_state''))
       else Inr s)))"

text \<open>One round of the loop of \<^verbatim>\<open>run\<close>: advance to the next pause, then the three checks.\<close>

definition run_round :: "arith \<Rightarrow> model \<Rightarrow> pyval \<Rightarrow> (error + model) option" where
  "run_round ar s step =
     (case and_then (getattr ''next_plot'' (next_plot s)) (\<lambda>np.
           and_then (getattr ''next_save'' (next_save s)) (\<lambda>ns.
           and_then (py_min ar np ns) (\<lambda>p.
           and_then (getattr ''next_report'' (next_report s)) (\<lambda>nr.
             py_min ar p nr)))) of
        Inl e \<Rightarrow> Some (Inl e)
      | Inr next_pause \<Rightarrow>
          (case update_until ar s next_pause step of
             None \<Rightarrow> None
           | Some (Inl e) \<Rightarrow> Some (Inl e)
           | Some (Inr s1) \<Rightarrow>
               Some (and_then (check_report ar s1) (\<lambda>s2.
                     and_then (check_plot ar s2) (check_save ar)))))"

partial_function (option) run_loop ::
  "arith \<Rightarrow> model \<Rightarrow> pyval \<Rightarrow> pyval \<Rightarrow> (error + model) option" where
  "run_loop ar s stop_time step =
     (case and_then (getattr ''current_time'' (current_time s)) (\<lambda>now.
             py_lt ar now stop_time) of
        Inl e \<Rightarrow> Some (Inl e)
      | Inr before \<Rightarrow>
          if before then
            (case run_round ar s step of
               None \<Rightarrow> None
             | Some (Inl e) \<Rightarrow> Some (Inl e)
             | Some (Inr s1) \<Rightarrow> run_loop ar s1 stop_time step)
          else Some (Inr s))"

declare run_loop.simps [code]

text \<open>
  \<^verbatim>\<open>run(run_duration=None, dt=None)\<close>: an argument that is \<^verbatim>\<open>None\<close> is
  read from the object.
\<close>

definition run :: "arith \<Rightarrow> model \<Rightarrow> pyval \<Rightarrow> pyval \<Rightarrow> (error + model) option" where
  "run ar s run_duration_arg dt_arg =
     (case and_then (if run_duration_arg = PNone then getattr ''run_duration'' (run_duration s)
                     else Inr run_duration_arg) (\<lambda>d.
           and_then (if dt_arg = PNone then getattr ''dt'' (dt s) else Inr dt_arg) (\<lambda>step.
           and_then (getattr ''current_time'' (current_time s)) (\<lambda>now.
           and_then (py_add ar d now) (\<lambda>stop_time.
             Inr (stop_time, step))))) of
        Inl e \<Rightarrow> Some (Inl e)
      | Inr (stop_time, step) \<Rightarrow> run_loop ar s stop_time step)"

text \<open>
  The script of \<^verbatim>\<open>bigantr_lem.py\<close>: the parameters come from the file named
  on the command line, or are the empty dictionary when no file is named.
\<close>

definition main :: "arith \<Rightarrow> library \<Rightarrow> string option \<Rightarrow> (error + model) option" where
  "main ar lib path =
     (case and_then (case path of None \<Rightarrow> Inr [] | Some p \<Rightarrow> load_params lib p) (\<lambda>params.
           BigantrLEM_init lib params) of
        Inl e \<Rightarrow> Some (Inl e)
      | Inr bigantr \<Rightarrow> run ar bigantr PNone PNone)"

section \<open>Exact arithmetic\<close>

text \<open>
  The arithmetic that computes without rounding. On ints (booleans count as ints) it is
  Python's arithmetic, and its comparisons are Python's on all numbers. A sum or a
  difference with a float operand is the exact one, which is Python's result only where
  that is a float; operands that are not numbers are refused with a type error. It is
  used below on int operands.
\<close>

fun number :: "pyval \<Rightarrow> real option" where
  "number (PInt n) = Some (of_int n)"
| "number (PBool b) = Some (if b then 1 else 0)"
| "number (PFloat x) = Some x"
| "number _ = None"

fun integer :: "pyval \<Rightarrow> int option" where
  "integer (PInt n) = Some n"
| "integer (PBool b) = Some (if b then 1 else 0)"
| "integer _ = None"

definition exact_op ::
  "(int \<Rightarrow> int \<Rightarrow> int) \<Rightarrow> (real \<Rightarrow> real \<Rightarrow> real) \<Rightarrow> pyval \<Rightarrow> pyval \<Rightarrow> error + pyval" where
  "exact_op fi fr a b =
     (case (integer a, integer b) of
        (Some x, Some y) \<Rightarrow> Inr (PInt (fi x y))
      | _ \<Rightarrow>
          (case (number a, number b) of
             (Some x, Some y) \<Rightarrow> Inr (PFloat (fr x y))
           | _ \<Rightarrow> Inl TypeError))"

definition exact_cmp :: "(real \<Rightarrow> real \<Rightarrow> bool) \<Rightarrow> pyval \<Rightarrow> pyval \<Rightarrow> error + bool" where
  "exact_cmp f a b =
     (case (number a, number b) of
        (Some x, Some y) \<Rightarrow> Inr (f x y)
      | _ \<Rightarrow> Inl TypeError)"

definition exact_arith :: arith where
  "exact_arith =
     \<lparr>py_add = exact_op (\<lambda>x y. x + y) (\<lambda>x y. x + y),
      py_sub = exact_op (\<lambda>x y. x - y) (\<lambda>x y. x - y),
      py_lt = exact_cmp (\<lambda>x y. x < y),
      py_ge = exact_cmp (\<lambda>x y. x \<ge> y)\<rparr>"

section \<open>Notions used to state the properties\<close>

text \<open>
  The value found by following a path of keys from a value through the store. The
  store \<open>h'\<close> extends \<open>h\<close> when it has the same dictionary objects and every key bound
  in an object of \<open>h\<close> is bound to the same value in \<open>h'\<close>.
\<close>

fun lookup_path :: "heap \<Rightarrow> hval \<Rightarrow> string list \<Rightarrow> hval option" where
  "lookup_path h v [] = Some v"
| "lookup_path h (HRef a) (k # ks) =
     (case map_of (obj h a) k of None \<Rightarrow> None | Some v \<Rightarrow> lookup_path h v ks)"
| "lookup_path h _ (k # ks) = None"

definition extends :: "heap \<Rightarrow> heap \<Rightarrow> bool" where
  "extends h h' =
     (length h' = length h
      \<and> (\<forall>a k v. map_of (obj h a) k = Some v \<longrightarrow> map_of (obj h' a) k = Some v))"

text \<open>
  A set \<open>R\<close> of dictionary objects is sealed in a store when every reference from an
  object outside \<open>R\<close> to an object inside sits under the key \<^verbatim>\<open>"grid"\<close>.
\<close>

definition sealed :: "(nat \<Rightarrow> bool) \<Rightarrow> heap \<Rightarrow> bool" where
  "sealed R h = (\<forall>a k b. \<not> R a \<and> (k, HRef b) \<in> set (obj h a) \<and> R b \<longrightarrow> k = ''grid'')"

text \<open>
  A user dictionary that already holds every default key at every nesting level, down
  to the depth at which the recursion limit would end the call. The grid section is
  atomic, so below \<^verbatim>\<open>"grid"\<close> only the key itself is asked for.
\<close>

fun contains_defaults :: "nat \<Rightarrow> heap \<Rightarrow> nat \<Rightarrow> hval \<Rightarrow> bool" where
  "contains_defaults 0 h u d = True"
| "contains_defaults (Suc n) h u d =
     (case d of
        HRef da \<Rightarrow>
          list_all (\<lambda>(k, dv).
            case map_of (obj h u) k of
              None \<Rightarrow> False
            | Some uv \<Rightarrow>
                (case dv of
                   HRef dda \<Rightarrow>
                     k = ''grid'' \<or> (isinstance_dict uv \<and> contains_defaults n h (address uv) dv)
                 | _ \<Rightarrow> True)) (obj h da)
      | _ \<Rightarrow> True)"

definition key_present :: "nat \<Rightarrow> heap \<Rightarrow> nat \<Rightarrow> string \<times> hval \<Rightarrow> bool" where
  "key_present n h u kd =
     (case kd of (k, dv) \<Rightarrow>
        (case map_of (obj h u) k of
           None \<Rightarrow> False
         | Some uv \<Rightarrow>
             isinstance_dict dv \<longrightarrow>
               k = ''grid'' \<or> (isinstance_dict uv \<and> contains_defaults n h (address uv) dv)))"


text \<open>
  In exact int arithmetic the steps across a gap of \<open>remaining\<close> with steps of at most
  \<open>step\<close> are full steps while a full step fits, then the rest of the gap.
\<close>

definition clamped_steps :: "int \<Rightarrow> int \<Rightarrow> int list" where
  "clamped_steps remaining step =
     (if remaining \<le> 0 then []
      else replicate (nat (remaining div step)) step
           @ (if remaining mod step = 0 then [] else [remaining mod step]))"

text \<open>
  An object on which a round of the run loop in exact arithmetic meets no error: the
  three output actions resolve and the attributes the round reads hold ints.
\<close>

fun is_int :: "pyval option \<Rightarrow> bool" where
  "is_int (Some (PInt n)) = True"
| "is_int _ = False"

definition ready :: "model \<Rightarrow> bool" where
  "ready s =
     (''report'' \<in> set (methods s) \<and> ''plot'' \<in> set (methods s)
      \<and> ''save_state'' \<in> set (methods s)
      \<and> is_int (current_time s) \<and> is_int (next_plot s) \<and> is_int (next_save s)
      \<and> is_int (next_report s) \<and> is_int (plot_interval s) \<and> is_int (save_num s))"

subsection \<open>Concrete inputs\<close>

text \<open>
  A library whose \<^verbatim>\<open>create_grid\<close> reads the section \<^verbatim>\<open>create_grid\<close> of the
  grid parameters and returns a grid of 961 nodes (31 by 31) without fields, and whose file
  operations fail.
\<close>

definition sample_library :: library where
  "sample_library =
     \<lparr>create_grid = (\<lambda>p. and_then (getitem p ''create_grid'') (\<lambda>spec.
                        Inr \<lparr>number_of_nodes = 961, at_node = [], arrays = []\<rparr>)),
      load_grid = (\<lambda>p. Inl (External ''load_grid'')),
      load_params = (\<lambda>p. Inl (External ''load_params'')),
      subclass_body = (\<lambda>s p. Inr s)\<rparr>"

definition create_params :: pydict where
  "create_params =
     [(''grid'', PDict [(''source'', PStr ''create''),
                        (''create_grid'', PDict [(''RasterModelGrid'',
                           PList [PList [PInt 31, PInt 31],
                                  PDict [(''xy_spacing'', PInt 1000)]])])])]"

definition spam_params :: pydict where
  "spam_params =
     [(''grid'', PDict [(''source'', PStr ''grid_object''), (''grid_object'', PStr ''spam'')])]"

text \<open>
  The dictionaries of the merger's doctest: the user dictionary at address 0 with its
  nested dictionaries at 1 and 2, the default dictionary at 3 with its nested
  dictionaries at 4 and 5; and the store the call leaves.
\<close>

definition doctest_heap :: heap where
  "doctest_heap =
     [[(''a'', HLeaf (PInt 1)), (''d'', HRef 1), (''e'', HLeaf (PInt 5)), (''grid'', HRef 2)],
      [(''da'', HLeaf (PInt 4))],
      [(''RasterModelGrid'', HList [])],
      [(''a'', HLeaf (PInt 2)), (''b'', HLeaf (PInt 3)), (''d'', HRef 4), (''grid'', HRef 5)],
      [(''db'', HLeaf (PInt 6))],
      [(''HexModelGrid'', HList [])]]"

definition doctest_merged :: heap where
  "doctest_merged =
     [[(''a'', HLeaf (PInt 1)), (''d'', HRef 1), (''e'', HLeaf (PInt 5)), (''grid'', HRef 2),
       (''b'', HLeaf (PInt 3))],
      [(''da'', HLeaf (PInt 4)), (''db'', HLeaf (PInt 6))],
      [(''RasterModelGrid'', HList [])],
      [(''a'', HLeaf (PInt 2)), (''b'', HLeaf (PInt 3)), (''d'', HRef 4), (''grid'', HRef 5)],
      [(''db'', HLeaf (PInt 6))],
      [(''HexModelGrid'', HList [])]]"

text \<open>
  A user dictionary (address 0) whose entries \<^verbatim>\<open>"grid"\<close> and \<^verbatim>\<open>"other"\<close>
  are one dictionary object (address 1), as a YAML alias gives, with the default
  dictionary \<^verbatim>\<open>{"other": {"extra": 1}}\<close> at address 2; and the store the call
  leaves.
\<close>

definition aliased_heap :: heap where
  "aliased_heap =
     [[(''grid'', HRef 1), (''other'', HRef 1)],
      [(''source'', HLeaf (PStr ''create''))],
      [(''other'', HRef 3)],
      [(''extra'', HLeaf (PInt 1))]]"

definition aliased_merged :: heap where
  "aliased_merged =
     [[(''grid'', HRef 1), (''other'', HRef 1)],
      [(''source'', HLeaf (PStr ''create'')), (''extra'', HLeaf (PInt 1))],
      [(''other'', HRef 3)],
      [(''extra'', HLeaf (PInt 1))]]"

text \<open>
  The user dictionary \<^verbatim>\<open>{"a": {}}\<close> at address 0 and the default dictionary
  \<^verbatim>\<open>{"a": 1, "b": 2}\<close> at address 2.
\<close>

definition clash_heap :: heap where
  "clash_heap =
     [[(''a'', HRef 1)], [], [(''a'', HLeaf (PInt 1)), (''b'', HLeaf (PInt 2))]]"

definition example_output_params :: pyval where
  "example_output_params =
     PDict [(''plot_interval'', PInt 10), (''save_interval'', PInt 10),
            (''ndigits'', PInt 3), (''save_name'', PStr ''run'')]"

definition example_run_params :: pyval where
  "example_run_params =
     PDict [(''run_duration'', PInt 20), (''dt'', PInt 1), (''start_time'', PInt 0)]"

text \<open>
  The object the two setup methods leave behind for these parameters; the same object
  with the report schedule supplied from outside; and that with the three output
  actions supplied as well, before and after its first pause.
\<close>

definition scheduled_model :: model where
  "scheduled_model =
     (new_object LandlabModel_methods)
       \<lparr>plot_interval := Some (PInt 10), next_plot := Some (PInt 10),
        save_interval := Some (PInt 10), next_save := Some (PInt 10),
        ndigits := Some (PInt 3), frame_num := Some (PInt 0), save_num := Some (PInt 0),
        save_name := Some (PStr ''run''), display_params := Some example_output_params,
        run_duration := Some (PInt 20), dt := Some (PInt 1),
        current_time := Some (PInt 0)\<rparr>"

definition reporting_model :: model where
  "reporting_model = scheduled_model\<lparr>next_report := Some (PInt 10)\<rparr>"

definition hooked_model :: model where
  "hooked_model =
     reporting_model\<lparr>methods := [''report'', ''plot'', ''save_state''] @ LandlabModel_methods\<rparr>"

definition after_first_pause :: model where
  "after_first_pause =
     hooked_model
       \<lparr>next_plot := Some (PInt 20), save_num := Some (PInt 1),
        current_time := Some (PInt 10),
        updates := [PInt 1, PInt 1, PInt 1, PInt 1, PInt 1, PInt 1, PInt 1, PInt 1, PInt 1,
                    PInt 1],
        fired := [(''report'', PInt 10), (''plot'', PInt 10), (''save_state'', PInt 10)]\<rparr>"

section \<open>Properties\<close>

subsection \<open>The doctest of the merger\<close>

lemma merge_doctest:
  "merge_user_and_default_params (Suc (Suc (Suc n))) doctest_heap 0 (HRef 3)
     = (doctest_merged, None)"
  by (simp add: doctest_heap_def doctest_merged_def merge_keys.simps obj_def)

subsection \<open>Lemmas about the merger\<close>

lemma extends_refl: "extends h h"
  by (simp add: extends_def)

lemma extends_trans: "extends a b \<Longrightarrow> extends b c \<Longrightarrow> extends a c"
  by (auto simp: extends_def)

lemma obj_update:
  "obj (h[u := x]) a = (if a = u \<and> u < length h then x else obj h a)"
  by (auto simp: obj_def)

lemma extends_write:
  assumes "map_of (obj h u) k = None"
  shows "extends h (h[u := obj h u @ [(k, dv)]])"
  using assms by (auto simp: extends_def obj_update)

lemma merge_keys_step:
  assumes "length (obj h da) = used" "i < used" "obj h da ! i = (k, dv)"
  shows "merge_keys n h u da i used =
     (case map_of (obj h u) k of
        None \<Rightarrow> merge_keys n (h[u := obj h u @ [(k, dv)]]) u da (Suc i) used
      | Some uv \<Rightarrow>
          if isinstance_dict uv \<and> k \<noteq> ''grid'' then
            (case merge_user_and_default_params n h (address uv) dv of
               (h1, None) \<Rightarrow> merge_keys n h1 u da (Suc i) used
             | (h1, Some e) \<Rightarrow> (h1, Some e))
          else merge_keys n h u da (Suc i) used)"
  using assms by (subst merge_keys.simps) simp

lemma merge_keys_changed:
  "length (obj h da) \<noteq> used \<Longrightarrow> merge_keys n h u da i used = (h, Some RuntimeError)"
  by (subst merge_keys.simps) simp

lemma merge_keys_done:
  "length (obj h da) = used \<Longrightarrow> used \<le> i \<Longrightarrow> merge_keys n h u da i used = (h, None)"
  by (subst merge_keys.simps) simp

lemma merge_extends:
  "extends h (fst (merge_user_and_default_params n h u d))"
  "extends h (fst (merge_keys n h u da i used))"
proof (induction n h u d and n h u da i used rule: merge_user_and_default_params_merge_keys.induct)
  case (1 h u d)
  show ?case by (simp add: extends_refl)
next
  case (2 n h u d)
  then show ?case by (cases d) (simp_all add: extends_refl)
next
  case (3 n h u da i used)
  show ?case
  proof (cases "length (obj h da) = used \<and> i < used")
    case False
    then show ?thesis
      by (cases "length (obj h da) = used")
         (simp_all add: merge_keys_changed merge_keys_done extends_refl)
  next
    case True
    then have len: "length (obj h da) = used" and i: "i < used" by simp_all
    obtain k dv where kd: "obj h da ! i = (k, dv)" by (cases "obj h da ! i")
    note step = merge_keys_step[OF len i kd, of n u]
    from len i have c: "\<not> length (obj h da) \<noteq> used" "\<not> used \<le> i" by simp_all
    show ?thesis
    proof (cases "map_of (obj h u) k")
      case None
      from "3.IH"(1)[OF c kd[symmetric] None] extends_write[OF None, of dv]
      show ?thesis by (simp add: step None) (blast intro: extends_trans)
    next
      case (Some uv)
      show ?thesis
      proof (cases "isinstance_dict uv \<and> k \<noteq> ''grid''")
        case guard: True
        obtain h1 e where m: "merge_user_and_default_params n h (address uv) dv = (h1, e)"
          by force
        from "3.IH"(2)[OF c kd[symmetric] Some guard] m have e1: "extends h h1" by simp
        show ?thesis
        proof (cases e)
          case None
          from "3.IH"(3)[OF c kd[symmetric] Some guard m[symmetric] None] e1
          show ?thesis using guard by (simp add: step Some m None) (blast intro: extends_trans)
        next
          case (Some err)
          with e1 guard show ?thesis by (simp add: step \<open>map_of (obj h u) k = Some uv\<close> m)
        qed
      next
        case False
        from "3.IH"(4)[OF c kd[symmetric] Some False] False
        show ?thesis by (auto simp: step Some)
      qed
    qed
  qed
qed

lemma extends_lookup_path:
  "extends h h' \<Longrightarrow> lookup_path h v p = Some w \<Longrightarrow> lookup_path h' v p = Some w"
proof (induction p arbitrary: v)
  case Nil
  then show ?case by simp
next
  case (Cons k ks)
  then show ?case
    by (cases v) (auto simp: extends_def split: option.splits)
qed

lemma sealed_write:
  assumes "sealed R h" "\<not> R u" "\<not> R da" "(k, dv) \<in> set (obj h da)"
  shows "sealed R (h[u := obj h u @ [(k, dv)]])"
  unfolding sealed_def
proof (intro allI impI)
  fix a k' b
  assume h: "\<not> R a \<and> (k', HRef b) \<in> set (obj (h[u := obj h u @ [(k, dv)]]) a) \<and> R b"
  then consider "(k', HRef b) \<in> set (obj h a)" | "(k', HRef b) = (k, dv)"
    by (auto simp: obj_update split: if_splits)
  then show "k' = ''grid''"
  proof cases
    case 1
    with h assms(1) show ?thesis unfolding sealed_def by blast
  next
    case 2
    with h assms(1,3,4) show ?thesis unfolding sealed_def by blast
  qed
qed

lemma obj_in_set: "i < length (obj h da) \<Longrightarrow> obj h da ! i \<in> set (obj h da)"
  by simp

lemma merge_region:
  "sealed R h \<Longrightarrow> \<not> R u \<Longrightarrow> (\<And>da. d = HRef da \<Longrightarrow> \<not> R da) \<Longrightarrow>
     sealed R (fst (merge_user_and_default_params n h u d))
     \<and> (\<forall>g. R g \<longrightarrow> obj (fst (merge_user_and_default_params n h u d)) g = obj h g)"
  "sealed R h \<Longrightarrow> \<not> R u \<Longrightarrow> \<not> R da \<Longrightarrow>
     sealed R (fst (merge_keys n h u da i used))
     \<and> (\<forall>g. R g \<longrightarrow> obj (fst (merge_keys n h u da i used)) g = obj h g)"
proof (induction n h u d and n h u da i used rule: merge_user_and_default_params_merge_keys.induct)
  case (1 h u d)
  then show ?case by simp
next
  case (2 n h u d)
  then show ?case by (cases d) simp_all
next
  case (3 n h u da i used)
  show ?case
  proof (cases "length (obj h da) = used \<and> i < used")
    case False
    with "3.prems" show ?thesis
      by (cases "length (obj h da) = used") (simp_all add: merge_keys_changed merge_keys_done)
  next
    case True
    then have len: "length (obj h da) = used" and i: "i < used" by simp_all
    obtain k dv where kd: "obj h da ! i = (k, dv)" by (cases "obj h da ! i")
    from len i kd have mem: "(k, dv) \<in> set (obj h da)"
      using obj_in_set[of i h da] by simp
    note step = merge_keys_step[OF len i kd, of n u]
    from len i have c: "\<not> length (obj h da) \<noteq> used" "\<not> used \<le> i" by simp_all
    show ?thesis
    proof (cases "map_of (obj h u) k")
      case None
      let ?h1 = "h[u := obj h u @ [(k, dv)]]"
      have s1: "sealed R ?h1" by (rule sealed_write[OF "3.prems"(1,2,3) mem])
      have f1: "\<forall>g. R g \<longrightarrow> obj ?h1 g = obj h g" using "3.prems"(2) by (auto simp: obj_update)
      from "3.IH"(1)[OF c kd[symmetric] None s1 "3.prems"(2,3)] f1
      show ?thesis by (simp add: step None)
    next
      case (Some uv)
      show ?thesis
      proof (cases "isinstance_dict uv \<and> k \<noteq> ''grid''")
        case guard: True
        then obtain ua where uv: "uv = HRef ua" by (cases uv) auto
        from Some uv have "(k, HRef ua) \<in> set (obj h u)" by (simp add: map_of_SomeD)
        with "3.prems"(1,2) guard have nua: "\<not> R ua" unfolding sealed_def by blast
        have ndv: "\<not> R dda" if "dv = HRef dda" for dda
          using that mem "3.prems"(1,3) guard unfolding sealed_def by blast
        obtain h1 e where m: "merge_user_and_default_params n h (address uv) dv = (h1, e)"
          by force
        from "3.IH"(2)[OF c kd[symmetric] Some guard "3.prems"(1)] nua ndv m uv
        have s1: "sealed R h1" and f1: "\<forall>g. R g \<longrightarrow> obj h1 g = obj h g" by simp_all
        show ?thesis
        proof (cases e)
          case None
          from "3.IH"(3)[OF c kd[symmetric] Some guard m[symmetric] None s1 "3.prems"(2,3)] f1
          show ?thesis using guard by (simp add: step Some m None)
        next
          case (Some err)
          with s1 f1 guard show ?thesis by (simp add: step \<open>map_of (obj h u) k = Some uv\<close> m)
        qed
      next
        case False
        from "3.IH"(4)[OF c kd[symmetric] Some False "3.prems"] False
        show ?thesis by (auto simp: step Some)
      qed
    qed
  qed
qed

lemma contains_defaults_not_dict: "\<not> isinstance_dict d \<Longrightarrow> contains_defaults n h u d"
  by (cases n; cases d) simp_all

lemma merge_not_dict: "\<not> isinstance_dict d \<Longrightarrow> fst (merge_user_and_default_params n h u d) = h"
  by (cases n; cases d) simp_all

lemma contains_defaults_Suc:
  "contains_defaults (Suc n) h u (HRef da) = list_all (key_present n h u) (obj h da)"
proof -
  have "(\<lambda>(k, dv).
            case map_of (obj h u) k of
              None \<Rightarrow> False
            | Some uv \<Rightarrow>
                (case dv of
                   HRef dda \<Rightarrow>
                     k = ''grid'' \<or> (isinstance_dict uv \<and> contains_defaults n h (address uv) dv)
                 | _ \<Rightarrow> True)) = key_present n h u"
    by (auto simp: key_present_def fun_eq_iff split: option.splits hval.splits)
  then show ?thesis by simp
qed

lemma merge_populated:
  "contains_defaults n h u d \<Longrightarrow> fst (merge_user_and_default_params n h u d) = h"
  "list_all (key_present n h u) (obj h da) \<Longrightarrow> fst (merge_keys n h u da i used) = h"
proof (induction n h u d and n h u da i used rule: merge_user_and_default_params_merge_keys.induct)
  case (1 h u d)
  then show ?case by simp
next
  case (2 n h u d)
  then show ?case by (cases d) (simp_all add: contains_defaults_Suc del: contains_defaults.simps)
next
  case (3 n h u da i used)
  show ?case
  proof (cases "length (obj h da) = used \<and> i < used")
    case False
    then show ?thesis
      by (cases "length (obj h da) = used") (simp_all add: merge_keys_changed merge_keys_done)
  next
    case True
    then have len: "length (obj h da) = used" and i: "i < used" by simp_all
    obtain k dv where kd: "obj h da ! i = (k, dv)" by (cases "obj h da ! i")
    from len i kd have mem: "(k, dv) \<in> set (obj h da)"
      using obj_in_set[of i h da] by simp
    with "3.prems" have kp: "key_present n h u (k, dv)" by (auto simp: list_all_iff)
    note step = merge_keys_step[OF len i kd, of n u]
    from len i have c: "\<not> length (obj h da) \<noteq> used" "\<not> used \<le> i" by simp_all
    from kp obtain uv where Some: "map_of (obj h u) k = Some uv"
      by (auto simp: key_present_def split: option.splits)
    show ?thesis
    proof (cases "isinstance_dict uv \<and> k \<noteq> ''grid''")
      case guard: True
      have cd: "contains_defaults n h (address uv) dv"
      proof (cases "isinstance_dict dv")
        case True
        with kp Some guard show ?thesis by (simp add: key_present_def)
      next
        case False
        then show ?thesis by (rule contains_defaults_not_dict)
      qed
      obtain h1 e where m: "merge_user_and_default_params n h (address uv) dv = (h1, e)"
        by force
      from "3.IH"(2)[OF c kd[symmetric] Some guard cd] m have h1: "h1 = h" by simp
      show ?thesis
      proof (cases e)
        case None
        from "3.IH"(3)[OF c kd[symmetric] Some guard m[symmetric] None] h1 "3.prems"
        show ?thesis using guard by (simp add: step Some m None)
      next
        case (Some err)
        with h1 guard show ?thesis by (simp add: step \<open>map_of (obj h u) k = Some uv\<close> m)
      qed
    next
      case False
      from "3.IH"(4)[OF c kd[symmetric] Some False "3.prems"] False
      show ?thesis by (auto simp: step Some)
    qed
  qed
qed

subsection \<open>Claims about the merger\<close>

text \<open>
  Claim C5, at an input where the code departs from it: the user dictionary
  \<^verbatim>\<open>{"a": {}}\<close> and the defaults \<^verbatim>\<open>{"a": 1, "b": 2}\<close>. The code tests
  only whether the user value is a dictionary and recurses with the default value
  \<^verbatim>\<open>1\<close>, whose \<^verbatim>\<open>keys()\<close> raises an attribute error; the merge ends there,
  and the default for \<^verbatim>\<open>"b"\<close>, a key the user dictionary lacks, is never bound.
\<close>

theorem merge_clash_raises:
  "merge_user_and_default_params (Suc (Suc n)) clash_heap 0 (HRef 2)
     = (clash_heap, Some (AttributeError ''keys''))
   \<and> map_of (obj clash_heap 0) ''b'' = None
   \<and> map_of (obj clash_heap 2) ''b'' = Some (HLeaf (PInt 2))"
  by (simp add: clash_heap_def merge_keys.simps obj_def)

text \<open>
  Claim C6, as the code has it. Whatever the dictionaries, whichever of them are one
  object, and whether the call returns or raises: a value that is not a dictionary and
  is found in the user dictionary at some path before the call is found there
  afterwards, and \<^verbatim>\<open>"grid"\<close> stays bound to the dictionary object it was bound
  to. The content of that object, and of any set \<open>R\<close> of objects, is left as it was when
  \<open>R\<close> is sealed, that is, reached from outside only through entries named
  \<^verbatim>\<open>"grid"\<close>, and holds neither the user dictionary nor the default dictionary.
\<close>

theorem merge_non_destructive:
  "(lookup_path h (HRef u) p = Some w \<and> \<not> isinstance_dict w \<longrightarrow>
      lookup_path (fst (merge_user_and_default_params n h u d)) (HRef u) p = Some w)
   \<and> (map_of (obj h u) ''grid'' = Some G \<longrightarrow>
      map_of (obj (fst (merge_user_and_default_params n h u d)) u) ''grid'' = Some G)
   \<and> (sealed R h \<and> \<not> R u \<and> \<not> R (address d) \<and> R g \<longrightarrow>
      obj (fst (merge_user_and_default_params n h u d)) g = obj h g)"
proof -
  note e = merge_extends(1)[of h n u d]
  have a: "lookup_path h (HRef u) p = Some w \<and> \<not> isinstance_dict w \<longrightarrow>
      lookup_path (fst (merge_user_and_default_params n h u d)) (HRef u) p = Some w"
    using extends_lookup_path[OF e] by blast
  have b: "map_of (obj h u) ''grid'' = Some G \<longrightarrow>
      map_of (obj (fst (merge_user_and_default_params n h u d)) u) ''grid'' = Some G"
    using e by (simp add: extends_def)
  have c: "obj (fst (merge_user_and_default_params n h u d)) g = obj h g"
    if "sealed R h \<and> \<not> R u \<and> \<not> R (address d) \<and> R g"
  proof -
    from that have "\<And>da. d = HRef da \<Longrightarrow> \<not> R da" by auto
    with merge_region(1)[of R h u d n] that show ?thesis by blast
  qed
  from a b c show ?thesis by blast
qed

theorem merge_non_destructive_witness:
  "lookup_path doctest_heap (HRef 0) [''d'', ''da''] = Some (HLeaf (PInt 4))
   \<and> lookup_path doctest_merged (HRef 0) [''d'', ''da''] = Some (HLeaf (PInt 4))
   \<and> map_of (obj doctest_heap 0) ''grid'' = Some (HRef 2)
   \<and> map_of (obj doctest_merged 0) ''grid'' = Some (HRef 2)
   \<and> sealed (\<lambda>a. a = 2) doctest_heap
   \<and> obj doctest_merged 2 = obj doctest_heap 2"
proof -
  have s: "sealed (\<lambda>a. a = 2) doctest_heap"
    unfolding sealed_def
  proof (intro allI impI)
    fix a k b
    assume h: "a \<noteq> 2 \<and> (k, HRef b) \<in> set (obj doctest_heap a) \<and> b = 2"
    then have "a < 6 \<or> obj doctest_heap a = []" by (auto simp: obj_def doctest_heap_def)
    with h show "k = ''grid''"
      by (auto simp: obj_def doctest_heap_def less_Suc_eq numeral_eq_Suc)
  qed
  note t = merge_non_destructive[of doctest_heap 0 "[''d'', ''da'']" "HLeaf (PInt 4)"
      "Suc (Suc (Suc 0))" "HRef 3" "HRef 2" "\<lambda>a. a = 2" 2]
  have l: "lookup_path doctest_heap (HRef 0) [''d'', ''da''] = Some (HLeaf (PInt 4))"
    by (simp add: doctest_heap_def obj_def)
  have g: "map_of (obj doctest_heap 0) ''grid'' = Some (HRef 2)"
    by (simp add: doctest_heap_def obj_def)
  have m: "fst (merge_user_and_default_params (Suc (Suc (Suc 0))) doctest_heap 0 (HRef 3))
             = doctest_merged"
    by (simp only: merge_doctest fst_conv)
  have f: "\<not> 0 = (2::nat)" "\<not> address (HRef 3) = 2" "\<not> isinstance_dict (HLeaf (PInt 4))"
    by simp_all
  from t[unfolded m] s l g f show ?thesis by blast
qed

text \<open>
  Against C6 as stated: when the entries \<^verbatim>\<open>"grid"\<close> and \<^verbatim>\<open>"other"\<close> of the
  user dictionary are one dictionary object and the defaults have a section
  \<^verbatim>\<open>"other"\<close>, merging that section writes its key into the object, so the grid
  section after the call is not the grid section before it.
\<close>

theorem merge_alias_counterexample:
  "merge_user_and_default_params (Suc (Suc (Suc 0))) aliased_heap 0 (HRef 2)
     = (aliased_merged, None)
   \<and> map_of (obj aliased_heap 0) ''grid'' = Some (HRef 1)
   \<and> obj aliased_heap 1 = [(''source'', HLeaf (PStr ''create''))]
   \<and> obj aliased_merged 1
       = [(''source'', HLeaf (PStr ''create'')), (''extra'', HLeaf (PInt 1))]"
  by (simp add: aliased_heap_def aliased_merged_def merge_keys.simps obj_def)

text \<open>
  Claim C7. Merging the defaults into a user dictionary that already holds every default
  key at every nesting level leaves the user dictionary, and every other dictionary, as
  it was.
\<close>

theorem merge_idempotent:
  "contains_defaults n h u d \<Longrightarrow> fst (merge_user_and_default_params n h u d) = h"
  by (rule merge_populated(1))

theorem merge_idempotent_witness:
  "contains_defaults (Suc (Suc (Suc 0))) doctest_merged 0 (HRef 3)
   \<and> fst (merge_user_and_default_params (Suc (Suc (Suc 0))) doctest_merged 0 (HRef 3))
       = doctest_merged"
proof -
  have c: "contains_defaults (Suc (Suc (Suc 0))) doctest_merged 0 (HRef 3)"
    by (simp add: doctest_merged_def obj_def)
  from c merge_idempotent[OF c] show ?thesis by simp
qed

subsection \<open>Lemmas about construction\<close>

lemma and_then_Inl [simp]: "and_then (Inl e) f = Inl e"
  by (simp add: and_then_def)

lemma and_then_Inr [simp]: "and_then (Inr x) f = f x"
  by (simp add: and_then_def)

lemma setup_grid_methods: "setup_grid lib s gp = Inr s1 \<Longrightarrow> methods s1 = methods s"
  by (cases "getitem gp ''source''")
     (auto simp: setup_grid_def and_then_def split: sum.splits if_splits pyval.splits)

lemma setup_grid_next_report: "setup_grid lib s gp = Inr s1 \<Longrightarrow> next_report s1 = next_report s"
  by (cases "getitem gp ''source''")
     (auto simp: setup_grid_def and_then_def split: sum.splits if_splits pyval.splits)

lemma setup_for_output_next_report:
  "setup_for_output s p = Inr s1 \<Longrightarrow> next_report s1 = next_report s"
  by (auto simp: setup_for_output_def and_then_def split: sum.splits)

lemma setup_run_control_next_report:
  "setup_run_control s p = Inr s1 \<Longrightarrow> next_report s1 = next_report s"
  by (auto simp: setup_run_control_def and_then_def split: sum.splits)

lemma init_with_grid:
  assumes "''setup_fields'' \<notin> set (methods self)" "map_of params ''grid'' = Some gp"
  shows "LandlabModel_init lib self params =
           (case setup_grid lib self gp of
              Inl e \<Rightarrow> Inl e
            | Inr s1 \<Rightarrow> Inl (AttributeError ''setup_fields''))"
proof (cases "setup_grid lib self gp")
  case (Inl e)
  with assms(2) show ?thesis by (simp add: LandlabModel_init_def)
next
  case (Inr s1)
  with assms setup_grid_methods[OF Inr] show ?thesis
    by (simp add: LandlabModel_init_def call_method_def)
qed

lemma init_without_grid:
  "map_of params ''grid'' = None \<Longrightarrow> LandlabModel_init lib self params = Inl (KeyError ''grid'')"
  by (simp add: LandlabModel_init_def)

lemma init_needs_setup_fields:
  assumes "''setup_fields'' \<notin> set (methods self)"
  shows "\<exists>e. LandlabModel_init lib self params = Inl e"
proof (cases "map_of params ''grid''")
  case None
  then show ?thesis by (simp add: init_without_grid)
next
  case (Some gp)
  show ?thesis
    by (cases "setup_grid lib self gp") (simp_all add: init_with_grid[OF assms Some])
qed

lemma no_setup_fields:
  "''setup_fields'' \<notin> set (methods (new_object LandlabModel_methods))"
  "''setup_fields'' \<notin> set (methods (new_object BigantrLEM_methods))"
  by (simp_all add: new_object_def LandlabModel_methods_def BigantrLEM_methods_def)

lemma bigantr_with_grid:
  assumes "map_of params ''grid'' = Some gp"
  shows "BigantrLEM_init lib params =
           (case setup_grid lib (new_object BigantrLEM_methods) gp of
              Inl e \<Rightarrow> Inl e
            | Inr s1 \<Rightarrow> Inl (AttributeError ''setup_fields''))"
  by (cases "setup_grid lib (new_object BigantrLEM_methods) gp")
     (simp_all add: BigantrLEM_init_def init_with_grid[OF no_setup_fields(2) assms])

lemma bigantr_fails: "\<exists>e. BigantrLEM_init lib params = Inl e"
  using init_needs_setup_fields[OF no_setup_fields(2), of lib params]
  by (auto simp: BigantrLEM_init_def)

lemma main_fails: "\<exists>e. main ar lib path = Some (Inl e)"
proof (cases "case path of None \<Rightarrow> Inr [] | Some p \<Rightarrow> load_params lib p")
  case (Inl e)
  then show ?thesis by (simp add: main_def)
next
  case (Inr params)
  with bigantr_fails[of lib params] show ?thesis by (auto simp: main_def)
qed

lemma undefined_methods:
  "list_all (\<lambda>name. name \<notin> set LandlabModel_methods \<and> name \<notin> set BigantrLEM_methods)
     [''setup_fields'', ''instantiate_components'', ''report'', ''plot'', ''save_state'']"
  by (simp add: LandlabModel_methods_def BigantrLEM_methods_def)

lemma undefined_calls:
  assumes "methods s = LandlabModel_methods \<or> methods s = BigantrLEM_methods"
  shows "list_all (\<lambda>name. call_method s name = Inl (AttributeError name)
                        \<and> call_output s name = Inl (AttributeError name))
     [''setup_fields'', ''instantiate_components'', ''report'', ''plot'', ''save_state'']"
  using assms
  by (auto simp: call_method_def call_output_def LandlabModel_methods_def BigantrLEM_methods_def)

lemma round_without_next_report:
  assumes "next_report s = None"
  shows "\<exists>e. run_round ar s step = Some (Inl e)"
proof (cases "next_plot s")
  case None
  then show ?thesis by (simp add: run_round_def getattr_def)
next
  case np: (Some np)
  show ?thesis
  proof (cases "next_save s")
    case None
    with np show ?thesis by (simp add: run_round_def getattr_def)
  next
    case ns: (Some ns)
    show ?thesis
      using assms np ns
      by (cases "py_min ar np ns") (simp_all add: run_round_def getattr_def)
  qed
qed

lemma round_reads_next_report:
  assumes "next_report s = None" "next_plot s = Some np" "next_save s = Some ns"
    "py_min ar np ns = Inr p"
  shows "run_round ar s step = Some (Inl (AttributeError ''next_report''))"
  using assms by (simp add: run_round_def getattr_def)

subsection \<open>Claims about construction\<close>

text \<open>
  Claim C1, at the input where the code departs from it. The script run without a
  parameter file constructs the model from the empty dictionary. No constructor calls
  the merger, so no default is filled in: the first statement of the base constructor,
  the lookup of \<^verbatim>\<open>params["grid"]\<close>, raises a key error, and the script ends
  there.
\<close>

theorem empty_configuration_raises:
  "BigantrLEM_init lib [] = Inl (KeyError ''grid'')
   \<and> main ar lib None = Some (Inl (KeyError ''grid''))"
  by (simp add: main_def BigantrLEM_init_def init_without_grid)

text \<open>
  Claim C3, as the code has it. Whatever the parameters, construction of a
  \<^verbatim>\<open>LandlabModel\<close> and of a \<^verbatim>\<open>BigantrLEM\<close> fails, and the script ends in an
  error before \<^verbatim>\<open>run\<close> is called. With a grid section in the parameters, the
  failure is the error of \<^verbatim>\<open>setup_grid\<close> when that raises, and the attribute
  error on \<^verbatim>\<open>setup_fields\<close> when it returns. None of \<^verbatim>\<open>setup_fields\<close>,
  \<^verbatim>\<open>instantiate_components\<close>, \<^verbatim>\<open>report\<close>, \<^verbatim>\<open>plot\<close> and
  \<^verbatim>\<open>save_state\<close> is a method of either class, so a call of any of them on an
  object of either class raises an attribute error. No setup method assigns
  \<^verbatim>\<open>next_report\<close>, and a round of \<^verbatim>\<open>run\<close> on an object without it ends in
  an error: the attribute error on \<^verbatim>\<open>next_report\<close> once \<^verbatim>\<open>next_plot\<close> and
  \<^verbatim>\<open>next_save\<close> are set and can be compared.
\<close>

theorem construction_always_fails:
  "(\<exists>e. LandlabModel_init lib (new_object LandlabModel_methods) params = Inl e)
   \<and> (\<exists>e. BigantrLEM_init lib params = Inl e)
   \<and> (\<exists>e. main ar lib path = Some (Inl e))
   \<and> (map_of params ''grid'' = Some gp \<longrightarrow>
        LandlabModel_init lib (new_object LandlabModel_methods) params
          = (case setup_grid lib (new_object LandlabModel_methods) gp of
               Inl e \<Rightarrow> Inl e
             | Inr s1 \<Rightarrow> Inl (AttributeError ''setup_fields''))
        \<and> BigantrLEM_init lib params
          = (case setup_grid lib (new_object BigantrLEM_methods) gp of
               Inl e \<Rightarrow> Inl e
             | Inr s1 \<Rightarrow> Inl (AttributeError ''setup_fields'')))
   \<and> list_all (\<lambda>name. name \<notin> set LandlabModel_methods \<and> name \<notin> set BigantrLEM_methods)
        [''setup_fields'', ''instantiate_components'', ''report'', ''plot'', ''save_state'']
   \<and> (methods s0 = LandlabModel_methods \<or> methods s0 = BigantrLEM_methods \<longrightarrow>
        list_all (\<lambda>name. call_method s0 name = Inl (AttributeError name)
                         \<and> call_output s0 name = Inl (AttributeError name))
          [''setup_fields'', ''instantiate_components'', ''report'', ''plot'', ''save_state''])
   \<and> next_report (new_object ms) = None
   \<and> (setup_grid lib s gp = Inr s3 \<longrightarrow> next_report s3 = next_report s)
   \<and> (setup_for_output s p = Inr s4 \<longrightarrow> next_report s4 = next_report s)
   \<and> (setup_run_control s p = Inr s5 \<longrightarrow> next_report s5 = next_report s)
   \<and> (next_report s = None \<longrightarrow> (\<exists>e. run_round ar s step = Some (Inl e)))
   \<and> (next_report s = None \<and> next_plot s = Some np \<and> next_save s = Some ns
        \<and> py_min ar np ns = Inr pause \<longrightarrow>
        run_round ar s step = Some (Inl (AttributeError ''next_report'')))"
proof -
  have a: "\<exists>e. LandlabModel_init lib (new_object LandlabModel_methods) params = Inl e"
    by (rule init_needs_setup_fields[OF no_setup_fields(1)])
  have b: "map_of params ''grid'' = Some gp \<longrightarrow>
        LandlabModel_init lib (new_object LandlabModel_methods) params
          = (case setup_grid lib (new_object LandlabModel_methods) gp of
               Inl e \<Rightarrow> Inl e
             | Inr s1 \<Rightarrow> Inl (AttributeError ''setup_fields''))
        \<and> BigantrLEM_init lib params
          = (case setup_grid lib (new_object BigantrLEM_methods) gp of
               Inl e \<Rightarrow> Inl e
             | Inr s1 \<Rightarrow> Inl (AttributeError ''setup_fields''))"
    using init_with_grid[OF no_setup_fields(1)] bigantr_with_grid by blast
  have c: "methods s0 = LandlabModel_methods \<or> methods s0 = BigantrLEM_methods \<longrightarrow>
        list_all (\<lambda>name. call_method s0 name = Inl (AttributeError name)
                         \<and> call_output s0 name = Inl (AttributeError name))
          [''setup_fields'', ''instantiate_components'', ''report'', ''plot'', ''save_state'']"
    using undefined_calls by blast
  have d: "next_report (new_object ms) = None" by (simp add: new_object_def)
  have e: "next_report s = None \<longrightarrow> (\<exists>e. run_round ar s step = Some (Inl e))"
    using round_without_next_report by blast
  have f: "next_report s = None \<and> next_plot s = Some np \<and> next_save s = Some ns
        \<and> py_min ar np ns = Inr pause \<longrightarrow>
        run_round ar s step = Some (Inl (AttributeError ''next_report''))"
    using round_reads_next_report by blast
  from a bigantr_fails main_fails b undefined_methods c d e f setup_grid_next_report
    setup_for_output_next_report setup_run_control_next_report
  show ?thesis by blast
qed

theorem construction_always_fails_witness:
  "LandlabModel_init sample_library (new_object LandlabModel_methods) create_params
     = Inl (AttributeError ''setup_fields'')
   \<and> BigantrLEM_init sample_library create_params = Inl (AttributeError ''setup_fields'')
   \<and> LandlabModel_init sample_library (new_object LandlabModel_methods) spam_params
     = Inl ValueError
   \<and> call_output scheduled_model ''report'' = Inl (AttributeError ''report'')
   \<and> run_round exact_arith scheduled_model (PInt 1) = Some (Inl (AttributeError ''next_report''))"
proof -
  have m: "methods scheduled_model = LandlabModel_methods"
          "next_report scheduled_model = None"
          "next_plot scheduled_model = Some (PInt 10)"
          "next_save scheduled_model = Some (PInt 10)"
    by (simp_all add: scheduled_model_def new_object_def)
  have p: "py_min exact_arith (PInt 10) (PInt 10) = Inr (PInt 10)"
    by (simp add: py_min_def exact_arith_def exact_cmp_def)
  note c = construction_always_fails[where lib = sample_library and params = create_params
      and gp = "the (map_of create_params ''grid'')" and ?s0.0 = scheduled_model
      and s = scheduled_model and ar = exact_arith and np = "PInt 10" and ns = "PInt 10"
      and pause = "PInt 10" and step = "PInt 1"]
  note d = construction_always_fails[where lib = sample_library and params = spam_params
      and gp = "the (map_of spam_params ''grid'')"]
  have g1: "map_of create_params ''grid'' = Some (the (map_of create_params ''grid''))"
    by (simp add: create_params_def)
  have g2: "map_of spam_params ''grid'' = Some (the (map_of spam_params ''grid''))"
    by (simp add: spam_params_def)
  have e1: "setup_grid sample_library (new_object LandlabModel_methods)
              (the (map_of create_params ''grid''))
            = Inr ((new_object LandlabModel_methods)
                     \<lparr>grid := Some \<lparr>number_of_nodes = 961, at_node = [], arrays = []\<rparr>\<rparr>)"
    by (simp add: create_params_def setup_grid_def sample_library_def)
  have e2: "setup_grid sample_library (new_object BigantrLEM_methods)
              (the (map_of create_params ''grid''))
            = Inr ((new_object BigantrLEM_methods)
                     \<lparr>grid := Some \<lparr>number_of_nodes = 961, at_node = [], arrays = []\<rparr>\<rparr>)"
    by (simp add: create_params_def setup_grid_def sample_library_def)
  have e3: "setup_grid sample_library (new_object LandlabModel_methods)
              (the (map_of spam_params ''grid'')) = Inl ValueError"
    by (simp add: spam_params_def setup_grid_def)
  from c d g1 g2 m p show ?thesis
    by (simp add: e1 e2 e3)
qed

text \<open>
  Against C3 as stated: with the source \<^verbatim>\<open>"grid_object"\<close> and a string where the
  grid should be, construction fails with the value error of \<^verbatim>\<open>setup_grid\<close>,
  not with an attribute error.
\<close>

theorem construction_counterexample:
  "LandlabModel_init sample_library (new_object LandlabModel_methods) spam_params
     = Inl ValueError"
  by (simp add: LandlabModel_init_def spam_params_def setup_grid_def)

text \<open>
  Claim C10. With the source \<^verbatim>\<open>"grid_object"\<close>, a grid instance supplied under
  \<^verbatim>\<open>grid_object\<close> becomes the grid of the model: the very grid supplied, with
  nothing created or loaded. A value that is not a grid makes \<^verbatim>\<open>setup_grid\<close>
  raise a value error, Python's invalid-argument error; since the constructors call it
  first, construction of either class fails with that error and the script ends with
  it, the run loop never entered.
\<close>

theorem grid_object_checked:
  assumes "map_of params ''grid'' = Some gp"
    and "getitem gp ''source'' = Inr (PStr ''grid_object'')"
    and "getitem gp ''grid_object'' = Inr v"
  shows "(\<forall>g. v = PGrid g \<longrightarrow> setup_grid lib s gp = Inr (s\<lparr>grid := Some g\<rparr>))
       \<and> (\<not> isinstance_ModelGrid v \<longrightarrow>
            setup_grid lib s gp = Inl ValueError
            \<and> LandlabModel_init lib s params = Inl ValueError
            \<and> BigantrLEM_init lib params = Inl ValueError
            \<and> (load_params lib path = Inr params \<longrightarrow>
                 main ar lib (Some path) = Some (Inl ValueError)))"
proof -
  have acc: "setup_grid lib s gp = Inr (s\<lparr>grid := Some g\<rparr>)" if "v = PGrid g" for g
    using that assms(2,3) by (simp add: setup_grid_def)
  have rej: "setup_grid lib s' gp = Inl ValueError" if "\<not> isinstance_ModelGrid v" for s'
    using that assms(2,3) by (cases v) (simp_all add: setup_grid_def)
  have ini: "LandlabModel_init lib s' params = Inl ValueError"
    if "\<not> isinstance_ModelGrid v" for s'
    using assms(1) rej[OF that, of s'] by (simp add: LandlabModel_init_def)
  have big: "BigantrLEM_init lib params = Inl ValueError" if "\<not> isinstance_ModelGrid v"
    using ini[OF that] by (simp add: BigantrLEM_init_def)
  have mn: "main ar lib (Some path) = Some (Inl ValueError)"
    if "\<not> isinstance_ModelGrid v" "load_params lib path = Inr params"
    using big[OF that(1)] that(2) by (simp add: main_def)
  from acc rej ini big mn show ?thesis by blast
qed

theorem grid_object_checked_witness:
  "LandlabModel_init sample_library (new_object LandlabModel_methods) spam_params
     = Inl ValueError
   \<and> BigantrLEM_init sample_library spam_params = Inl ValueError
   \<and> setup_grid sample_library (new_object LandlabModel_methods)
       (PDict [(''source'', PStr ''grid_object''),
               (''grid_object'', PGrid \<lparr>number_of_nodes = 9, at_node = [], arrays = []\<rparr>)])
     = Inr ((new_object LandlabModel_methods)
              \<lparr>grid := Some \<lparr>number_of_nodes = 9, at_node = [], arrays = []\<rparr>\<rparr>)"
proof -
  have bad: "\<not> isinstance_ModelGrid (PStr ''spam'')" by simp
  note r = grid_object_checked[of spam_params
      "PDict [(''source'', PStr ''grid_object''), (''grid_object'', PStr ''spam'')]"
      "PStr ''spam''" sample_library "new_object LandlabModel_methods" "''none''" exact_arith]
  note a = grid_object_checked[of
      "[(''grid'', PDict [(''source'', PStr ''grid_object''),
               (''grid_object'', PGrid \<lparr>number_of_nodes = 9, at_node = [], arrays = []\<rparr>)])]"
      "PDict [(''source'', PStr ''grid_object''),
               (''grid_object'', PGrid \<lparr>number_of_nodes = 9, at_node = [], arrays = []\<rparr>)]"
      "PGrid \<lparr>number_of_nodes = 9, at_node = [], arrays = []\<rparr>"
      sample_library "new_object LandlabModel_methods" "''none''" exact_arith]
  from r a bad show ?thesis by (simp add: spam_params_def)
qed

subsection \<open>Lemmas about the clock and the run loop\<close>

lemma exact_ints [simp]:
  "py_add exact_arith (PInt a) (PInt b) = Inr (PInt (a + b))"
  "py_sub exact_arith (PInt a) (PInt b) = Inr (PInt (a - b))"
  "py_lt exact_arith (PInt a) (PInt b) = Inr (a < b)"
  "py_ge exact_arith (PInt a) (PInt b) = Inr (a \<ge> b)"
  "py_lt exact_arith (PFloat 0) (PInt a) = Inr (0 < a)"
  by (simp_all add: exact_arith_def exact_op_def exact_cmp_def)

lemma exact_min [simp]: "py_min exact_arith (PInt a) (PInt b) = Inr (PInt (min a b))"
  by (simp add: py_min_def min_def)

lemma clamped_steps_last: "0 < r \<Longrightarrow> r \<le> step \<Longrightarrow> clamped_steps r step = [r]"
  by (cases "r = step") (auto simp: clamped_steps_def)

lemma clamped_steps_full:
  assumes "0 < step" "step < r"
  shows "clamped_steps r step = step # clamped_steps (r - step) step"
proof -
  have d: "r div step = (r - step) div step + 1"
    using assms by (metis add.commute diff_add_cancel div_add_self2 less_irrefl)
  have "0 \<le> (r - step) div step" using assms by (simp add: pos_imp_zdiv_nonneg_iff)
  with d have n: "nat (r div step) = Suc (nat ((r - step) div step))" by simp
  have m: "(r - step) mod step = r mod step" by simp
  show ?thesis using assms by (simp add: clamped_steps_def n m)
qed




lemma update_until_loop_done:
  "r \<le> 0 \<Longrightarrow> update_until_loop exact_arith s (PInt r) step = Some (Inr s)"
  by (subst update_until_loop.simps) simp

lemma update_until_loop_steps:
  assumes "0 < step" "current_time s = Some (PInt now)"
  shows "update_until_loop exact_arith s (PInt r) (PInt step) =
           Some (Inr (s\<lparr>current_time := Some (PInt (now + max 0 r)),
                        updates := updates s @ map PInt (clamped_steps r step)\<rparr>))"
  using assms(2)
proof (induction "nat r" arbitrary: r s now rule: less_induct)
  case less
  show ?case
  proof (cases "r \<le> 0")
    case True
    then have "clamped_steps r step = []" by (simp add: clamped_steps_def)
    with True less.prems show ?thesis
      by (simp add: update_until_loop_done max_def)
  next
    case pos: False
    show ?thesis
    proof (cases "r \<le> step")
      case True
      with pos have m: "min step r = r" by simp
      from pos True have c: "clamped_steps r step = [r]" by (simp add: clamped_steps_last)
      have "update_until_loop exact_arith s (PInt r) (PInt step) =
              update_until_loop exact_arith
                (s\<lparr>current_time := Some (PInt (now + r)), updates := updates s @ [PInt r]\<rparr>)
                (PInt 0) (PInt r)"
        using pos less.prems m
        by (subst update_until_loop.simps) (simp add: update_def getattr_def)
      also have "\<dots> = Some (Inr (s\<lparr>current_time := Some (PInt (now + r)),
                                    updates := updates s @ [PInt r]\<rparr>))"
        by (simp add: update_until_loop_done)
      finally show ?thesis using pos c by (simp add: max_def)
    next
      case False
      with pos have m: "min step r = step" by simp
      let ?s1 = "s\<lparr>current_time := Some (PInt (now + step)),
                   updates := updates s @ [PInt step]\<rparr>"
      have "update_until_loop exact_arith s (PInt r) (PInt step) =
              update_until_loop exact_arith ?s1 (PInt (r - step)) (PInt step)"
        using pos less.prems m
        by (subst update_until_loop.simps) (simp add: update_def getattr_def)
      also have "\<dots> = Some (Inr (?s1\<lparr>current_time := Some (PInt (now + step + max 0 (r - step))),
                        updates := updates ?s1 @ map PInt (clamped_steps (r - step) step)\<rparr>))"
        using less.hyps[of "r - step" ?s1 "now + step"] assms(1) False pos by simp
      finally show ?thesis
        using False pos assms(1) by (simp add: clamped_steps_full max_def)
    qed
  qed
qed

lemma update_until_exact:
  assumes "0 < step" "current_time s = Some (PInt now)"
  shows "update_until exact_arith s (PInt t) (PInt step) =
           Some (Inr (s\<lparr>current_time := Some (PInt (max now t)),
                        updates := updates s @ map PInt (clamped_steps (t - now) step)\<rparr>))"
proof -
  have m: "now + max 0 (t - now) = max now t" by (simp add: max_def)
  show ?thesis
    using update_until_loop_steps[OF assms, of "t - now"] assms(2)
    by (simp add: update_until_def getattr_def m)
qed



lemma update_until_loop_stuck:
  assumes "update_until_loop ar s r step = Some y"
  shows "ar = exact_arith \<longrightarrow>
       \<not> (\<exists>ri si now. r = PInt ri \<and> step = PInt si \<and> si \<le> 0 \<and> 0 < ri
              \<and> current_time s = Some (PInt now))"
proof (rule update_until_loop.raw_induct[where P =
    "\<lambda>ar s r step y. ar = exact_arith \<longrightarrow>
       \<not> (\<exists>ri si now. r = PInt ri \<and> step = PInt si \<and> si \<le> 0 \<and> 0 < ri
              \<and> current_time s = Some (PInt now))", OF _ assms])
  fix f :: "arith \<Rightarrow> model \<Rightarrow> pyval \<Rightarrow> pyval \<Rightarrow> (error + model) option"
    and ar s r step y
  assume IH: "\<And>ar s r step y. f ar s r step = Some y \<Longrightarrow> ar = exact_arith \<longrightarrow>
       \<not> (\<exists>ri si now. r = PInt ri \<and> step = PInt si \<and> si \<le> 0 \<and> 0 < ri
              \<and> current_time s = Some (PInt now))"
  assume body: "(case py_lt ar (PFloat 0) r of
        Inl e \<Rightarrow> Some (Inl e)
      | Inr positive \<Rightarrow>
          if positive then
            (case py_min ar step r of
               Inl e \<Rightarrow> Some (Inl e)
             | Inr clamped \<Rightarrow>
                 (case update ar s clamped of
                    Inl e \<Rightarrow> Some (Inl e)
                  | Inr s1 \<Rightarrow>
                      (case py_sub ar r clamped of
                         Inl e \<Rightarrow> Some (Inl e)
                       | Inr r1 \<Rightarrow> f ar s1 r1 clamped)))
          else Some (Inr s)) = Some y"
  show "ar = exact_arith \<longrightarrow>
       \<not> (\<exists>ri si now. r = PInt ri \<and> step = PInt si \<and> si \<le> 0 \<and> 0 < ri
              \<and> current_time s = Some (PInt now))"
  proof (intro impI notI)
    assume ar: "ar = exact_arith"
    assume "\<exists>ri si now. r = PInt ri \<and> step = PInt si \<and> si \<le> 0 \<and> 0 < ri
              \<and> current_time s = Some (PInt now)"
    then obtain ri si now where h: "r = PInt ri" "step = PInt si" "si \<le> 0" "0 < ri"
      "current_time s = Some (PInt now)" by blast
    from h have m: "min si ri = si" by simp
    let ?s1 = "s\<lparr>current_time := Some (PInt (now + si)), updates := updates s @ [PInt si]\<rparr>"
    from body ar h m have "f exact_arith ?s1 (PInt (ri - si)) (PInt si) = Some y"
      by (simp add: update_def getattr_def)
    from IH[OF this] h show False by simp
  qed
qed

lemma update_until_loop_diverges:
  assumes "update_until_loop exact_arith s r step = Some y"
  shows "\<not> (\<exists>ri si now. r = PInt ri \<and> step = PInt si \<and> si \<le> 0 \<and> 0 < ri
              \<and> current_time s = Some (PInt now))"
  using update_until_loop_stuck[OF assms] by simp

lemma update_until_never_returns:
  assumes "step \<le> 0" "current_time s = Some (PInt now)" "now < t"
  shows "update_until exact_arith s (PInt t) (PInt step) = None"
proof (cases "update_until_loop exact_arith s (PInt (t - now)) (PInt step)")
  case None
  with assms(2) show ?thesis by (simp add: update_until_def getattr_def)
next
  case (Some y)
  from update_until_loop_diverges[OF Some] assms show ?thesis by simp
qed

lemma is_int_iff: "is_int x = (\<exists>n. x = Some (PInt n))"
  by (cases x rule: is_int.cases) simp_all

lemma checks_ok:
  assumes "ready s"
  shows "\<exists>s1. and_then (check_report exact_arith s)
               (\<lambda>s2. and_then (check_plot exact_arith s2) (check_save exact_arith)) = Inr s1
           \<and> ready s1 \<and> current_time s1 = current_time s
           \<and> next_save s1 = next_save s \<and> next_report s1 = next_report s"
proof -
  from assms obtain now np ns nr pl n where
    v: "current_time s = Some (PInt now)" "next_plot s = Some (PInt np)"
    "next_save s = Some (PInt ns)" "next_report s = Some (PInt nr)"
    "plot_interval s = Some (PInt pl)" "save_num s = Some (PInt n)"
    and m: "''report'' \<in> set (methods s)" "''plot'' \<in> set (methods s)"
    "''save_state'' \<in> set (methods s)"
    by (auto simp: ready_def is_int_iff)
  show ?thesis
    using v m
    by (simp add: ready_def check_report_def check_plot_def check_save_def call_output_def
        call_method_def getattr_def)
qed

lemma run_loop_stuck:
  assumes "run_loop ar s stop_time step = Some y"
  shows "ar = exact_arith \<longrightarrow>
     \<not> (ready s \<and> (\<exists>now ns st. current_time s = Some (PInt now)
            \<and> next_save s = Some (PInt ns) \<and> stop_time = PInt st
            \<and> ns \<le> now \<and> now < st))"
proof (rule run_loop.raw_induct[where P =
    "\<lambda>ar s stop_time step y. ar = exact_arith \<longrightarrow>
     \<not> (ready s \<and> (\<exists>now ns st. current_time s = Some (PInt now)
            \<and> next_save s = Some (PInt ns) \<and> stop_time = PInt st
            \<and> ns \<le> now \<and> now < st))", OF _ assms])
  fix f :: "arith \<Rightarrow> model \<Rightarrow> pyval \<Rightarrow> pyval \<Rightarrow> (error + model) option"
    and ar s stop_time step y
  assume IH: "\<And>ar s stop_time step y. f ar s stop_time step = Some y \<Longrightarrow>
     ar = exact_arith \<longrightarrow>
     \<not> (ready s \<and> (\<exists>now ns st. current_time s = Some (PInt now)
            \<and> next_save s = Some (PInt ns) \<and> stop_time = PInt st
            \<and> ns \<le> now \<and> now < st))"
  assume body: "(case and_then (getattr ''current_time'' (current_time s)) (\<lambda>now.
             py_lt ar now stop_time) of
        Inl e \<Rightarrow> Some (Inl e)
      | Inr before \<Rightarrow>
          if before then
            (case run_round ar s step of
               None \<Rightarrow> None
             | Some (Inl e) \<Rightarrow> Some (Inl e)
             | Some (Inr s1) \<Rightarrow> f ar s1 stop_time step)
          else Some (Inr s)) = Some y"
  show "ar = exact_arith \<longrightarrow>
     \<not> (ready s \<and> (\<exists>now ns st. current_time s = Some (PInt now)
            \<and> next_save s = Some (PInt ns) \<and> stop_time = PInt st
            \<and> ns \<le> now \<and> now < st))"
  proof (intro impI notI)
    assume ar: "ar = exact_arith"
    assume h: "ready s \<and> (\<exists>now ns st. current_time s = Some (PInt now)
            \<and> next_save s = Some (PInt ns) \<and> stop_time = PInt st
            \<and> ns \<le> now \<and> now < st)"
    then obtain now ns st where now: "current_time s = Some (PInt now)"
      and ns: "next_save s = Some (PInt ns)" and st: "stop_time = PInt st"
      and le: "ns \<le> now" and lt: "now < st" and rd: "ready s" by blast
    from rd obtain np nr where np: "next_plot s = Some (PInt np)"
      and nr: "next_report s = Some (PInt nr)"
      by (auto simp: ready_def is_int_iff)
    define p where "p = min (min np ns) nr"
    from le have p: "p - now \<le> 0" by (simp add: p_def)
    have u: "update_until exact_arith s (PInt p) step = Some (Inr s)"
      using now update_until_loop_done[OF p] by (simp add: update_until_def getattr_def)
    from checks_ok[OF rd] obtain s1 where
      c: "and_then (check_report exact_arith s)
            (\<lambda>s2. and_then (check_plot exact_arith s2) (check_save exact_arith)) = Inr s1"
      and s1: "ready s1" "current_time s1 = current_time s" "next_save s1 = next_save s"
      by blast
    from u c np ns nr have "run_round exact_arith s step = Some (Inr s1)"
      by (simp add: run_round_def getattr_def p_def[symmetric])
    with body now lt ar st have "f exact_arith s1 stop_time step = Some y"
      by (simp add: getattr_def)
    from IH[OF this] s1 now ns le lt st show False by simp
  qed
qed

lemma run_loop_never_returns:
  assumes "ready s" "current_time s = Some (PInt now)" "next_save s = Some (PInt ns)"
    "ns \<le> now" "now < stop_time"
  shows "run_loop exact_arith s (PInt stop_time) step = None"
  using run_loop_stuck[of exact_arith s "PInt stop_time" step] assms
  by (cases "run_loop exact_arith s (PInt stop_time) step") auto

lemma run_entry:
  "current_time s = Some (PInt now) \<Longrightarrow>
   run exact_arith s (PInt d) (PInt step) = run_loop exact_arith s (PInt (d + now)) (PInt step)"
  by (simp add: run_def getattr_def)

lemma hooked_first_round:
  "run_loop exact_arith hooked_model (PInt stop_time) (PInt 1) =
     (if 0 < stop_time then run_loop exact_arith after_first_pause (PInt stop_time) (PInt 1)
      else Some (Inr hooked_model))"
  by (subst run_loop.simps)
     (simp add: hooked_model_def reporting_model_def scheduled_model_def after_first_pause_def
        new_object_def LandlabModel_methods_def getattr_def run_round_def update_until_def
        update_until_loop.simps update_def check_report_def check_plot_def check_save_def
        call_output_def call_method_def)

lemma after_first_pause_ready:
  "ready after_first_pause" "current_time after_first_pause = Some (PInt 10)"
  "next_save after_first_pause = Some (PInt 10)"
  by (simp_all add: ready_def after_first_pause_def hooked_model_def reporting_model_def
      scheduled_model_def new_object_def)

text \<open>
  The plot branch reschedules itself: with the clock on a multiple of the plot interval,
  the next plot one interval ahead and neither a save nor a report due up to the stop
  time, the run returns on the stop time having invoked plot once at each multiple of
  the interval on the way, whatever the positive step.
\<close>

lemma plot_round:
  assumes "''plot'' \<in> set (methods s)" "0 < step" "plot_interval s = Some (PInt i)"
    "current_time s = Some (PInt now)" "next_plot s = Some (PInt np)"
    "next_save s = Some (PInt ns)" "next_report s = Some (PInt nr)"
    "now < np" "np < ns" "np < nr"
  shows "run_round exact_arith s (PInt step) =
           Some (Inr (s\<lparr>current_time := Some (PInt np),
                          updates := updates s @ map PInt (clamped_steps (np - now) step),
                          fired := fired s @ [(''plot'', PInt np)],
                          next_plot := Some (PInt (np + i))\<rparr>))"
proof -
  have p: "min (min np ns) nr = np" using assms(9,10) by simp
  have m: "max now np = np" using assms(8) by simp
  have u: "update_until exact_arith s (PInt np) (PInt step) =
             Some (Inr (s\<lparr>current_time := Some (PInt np),
                            updates := updates s @ map PInt (clamped_steps (np - now) step)\<rparr>))"
    using update_until_exact[OF assms(2,4), of np] m by simp
  show ?thesis
    using assms(1,3,5,6,7,9,10) u
    by (simp add: run_round_def getattr_def p check_report_def check_plot_def check_save_def
        call_output_def call_method_def)
qed

lemma plot_fires_on_schedule:
  assumes "''plot'' \<in> set (methods s)" "0 < step" "0 < i" "plot_interval s = Some (PInt i)"
    "current_time s = Some (PInt (j * i))" "next_plot s = Some (PInt ((j + 1) * i))"
    "next_save s = Some (PInt ns)" "next_report s = Some (PInt nr)"
    "n * i < ns" "n * i < nr" "j \<le> n"
  shows "\<exists>s1. run_loop exact_arith s (PInt (n * i)) (PInt step) = Some (Inr s1)
           \<and> current_time s1 = Some (PInt (n * i))
           \<and> next_plot s1 = Some (PInt ((n + 1) * i))
           \<and> fired s1 = fired s @ map (\<lambda>m. (''plot'', PInt (m * i))) [j + 1..n]"
  using assms(1,4,5,6,7,8,11)
proof (induction "nat (n - j)" arbitrary: j s)
  case 0
  then have jn: "j = n" by simp
  with 0 show ?case
    by (subst run_loop.simps) (simp add: getattr_def)
next
  case (Suc k)
  then have lt: "j < n" by simp
  with assms(3) have t: "j * i < n * i" by simp
  from lt assms(3) have le: "(j + 1) * i \<le> n * i" by (simp add: mult_right_mono)
  have now: "j * i < (j + 1) * i" using assms(3) by (simp add: distrib_right)
  let ?s1 = "s\<lparr>current_time := Some (PInt ((j + 1) * i)),
               updates := updates s @ map PInt (clamped_steps ((j + 1) * i - j * i) step),
               fired := fired s @ [(''plot'', PInt ((j + 1) * i))],
               next_plot := Some (PInt ((j + 1) * i + i))\<rparr>"
  have r: "run_round exact_arith s (PInt step) = Some (Inr ?s1)"
    using plot_round[OF Suc.prems(1) assms(2) Suc.prems(2,3,4,5,6) now] le assms(9,10)
    by simp
  have unfold: "run_loop exact_arith s (PInt (n * i)) (PInt step) =
                  run_loop exact_arith ?s1 (PInt (n * i)) (PInt step)"
    using Suc.prems(3) t r by (subst run_loop.simps) (simp add: getattr_def)
  have k: "k = nat (n - (j + 1))" using Suc.hyps(2) by simp
  have np: "(j + 1) * i + i = (j + 1 + 1) * i" by (simp add: distrib_right)
  from Suc.hyps(1)[OF k, of ?s1] Suc.prems lt np
  obtain s2 where s2: "run_loop exact_arith ?s1 (PInt (n * i)) (PInt step) = Some (Inr s2)"
    "current_time s2 = Some (PInt (n * i))" "next_plot s2 = Some (PInt ((n + 1) * i))"
    "fired s2 = fired ?s1 @ map (\<lambda>m. (''plot'', PInt (m * i))) [j + 1 + 1..n]"
    by auto
  have "[j + 1..n] = (j + 1) # [j + 1 + 1..n]" using lt by (simp add: upto_rec1)
  with s2 unfold show ?case by simp
qed

subsection \<open>Claims about the clock and the run loop\<close>



text \<open>
  Claim C2, at the input where the code departs from it: plot and save intervals of 10,
  a clock starting at 0 with step 1, a run of duration 20. The two setup methods leave
  \<open>scheduled_model\<close>, with \<^verbatim>\<open>next_plot\<close> and \<^verbatim>\<open>next_save\<close> at one interval
  and no \<^verbatim>\<open>next_report\<close>; the first round of \<^verbatim>\<open>run\<close> raises an attribute
  error reading it, before any step. With \<^verbatim>\<open>next_report\<close> and the three output
  actions supplied, the first pause at 10 fires report, plot and save; only
  \<^verbatim>\<open>next_plot\<close> is advanced, so from then on the next pause is never ahead of
  the clock and the loop does not end (\<open>run_loop_never_returns\<close>), where the plot
  branch on its own keeps the schedule the claim describes
  (\<open>plot_fires_on_schedule\<close>).
\<close>

theorem scheduler_run_at_two_intervals:
  "and_then (setup_for_output (new_object LandlabModel_methods) example_output_params)
      (\<lambda>s. setup_run_control s example_run_params) = Inr scheduled_model
   \<and> next_plot scheduled_model = plot_interval scheduled_model
   \<and> next_save scheduled_model = save_interval scheduled_model
   \<and> next_report scheduled_model = None
   \<and> run exact_arith scheduled_model PNone PNone = Some (Inl (AttributeError ''next_report''))
   \<and> run exact_arith hooked_model (PInt 10) (PInt 1) = Some (Inr after_first_pause)
   \<and> next_save after_first_pause = Some (PInt 10)
   \<and> next_report after_first_pause = Some (PInt 10)
   \<and> run exact_arith hooked_model PNone PNone = None"
proof -
  have a: "and_then (setup_for_output (new_object LandlabModel_methods) example_output_params)
      (\<lambda>s. setup_run_control s example_run_params) = Inr scheduled_model"
    by (simp add: setup_for_output_def setup_run_control_def example_output_params_def
        example_run_params_def scheduled_model_def new_object_def)
  have b: "next_plot scheduled_model = plot_interval scheduled_model"
    "next_save scheduled_model = save_interval scheduled_model"
    "next_report scheduled_model = None"
    by (simp_all add: scheduled_model_def new_object_def)
  have c: "run exact_arith scheduled_model PNone PNone
             = Some (Inl (AttributeError ''next_report''))"
    by (simp add: run_def run_loop.simps run_round_def getattr_def scheduled_model_def
        new_object_def)
  have t0: "current_time hooked_model = Some (PInt 0)"
    "run_duration hooked_model = Some (PInt 20)" "dt hooked_model = Some (PInt 1)"
    by (simp_all add: hooked_model_def reporting_model_def scheduled_model_def new_object_def)
  have d: "run exact_arith hooked_model (PInt 10) (PInt 1) = Some (Inr after_first_pause)"
    using run_entry[OF t0(1), of 10 1] hooked_first_round[of 10]
    by (simp add: run_loop.simps[of exact_arith after_first_pause] getattr_def
        after_first_pause_ready)
  have e: "next_save after_first_pause = Some (PInt 10)"
    "next_report after_first_pause = Some (PInt 10)"
    by (simp_all add: after_first_pause_def hooked_model_def reporting_model_def
        scheduled_model_def new_object_def)
  have "run exact_arith hooked_model PNone PNone
          = run_loop exact_arith hooked_model (PInt 20) (PInt 1)"
    using t0 by (simp add: run_def getattr_def)
  also have "\<dots> = run_loop exact_arith after_first_pause (PInt 20) (PInt 1)"
    using hooked_first_round[of 20] by simp
  also have "\<dots> = None"
    by (rule run_loop_never_returns[OF after_first_pause_ready]) simp_all
  finally have f: "run exact_arith hooked_model PNone PNone = None" .
  from a b c d e f show ?thesis by simp
qed

text \<open>
  Claim C4, at an input where the code departs from it: the clock at 0, the plot, save
  and report times all at 10, and \<^verbatim>\<open>run(5, 1)\<close>, so the stop boundary is 5. The
  loop of \<^verbatim>\<open>run\<close> compares the clock with the boundary only at the top of a round,
  and a round advances to the next pause, which is not clamped to the boundary. On the
  object that has the three output actions, the run returns with the clock at 10, after
  ten steps of 1, five of them beyond the boundary. On the object with the methods of
  the repository only, the same ten steps are taken, and then the report that is due
  raises an attribute error.
\<close>

theorem run_overshoots_stop:
  "current_time hooked_model = Some (PInt 0)
   \<and> run exact_arith hooked_model (PInt 5) (PInt 1) = Some (Inr after_first_pause)
   \<and> current_time after_first_pause = Some (PInt 10)
   \<and> updates after_first_pause = replicate 10 (PInt 1)
   \<and> current_time reporting_model = Some (PInt 0)
   \<and> methods reporting_model = LandlabModel_methods
   \<and> update_until exact_arith reporting_model (PInt 10) (PInt 1)
       = Some (Inr (reporting_model\<lparr>current_time := Some (PInt 10),
                                     updates := replicate 10 (PInt 1)\<rparr>))
   \<and> run exact_arith reporting_model (PInt 5) (PInt 1) = Some (Inl (AttributeError ''report''))"
proof -
  have t0: "current_time hooked_model = Some (PInt 0)"
    by (simp add: hooked_model_def reporting_model_def scheduled_model_def new_object_def)
  have a: "run exact_arith hooked_model (PInt 5) (PInt 1) = Some (Inr after_first_pause)"
    using run_entry[OF t0, of 5 1] hooked_first_round[of 5]
    by (simp add: run_loop.simps[of exact_arith after_first_pause] getattr_def
        after_first_pause_ready)
  have b: "current_time after_first_pause = Some (PInt 10)"
    "updates after_first_pause = replicate 10 (PInt 1)"
    by (simp_all add: after_first_pause_def numeral_eq_Suc)
  have r0: "current_time reporting_model = Some (PInt 0)"
    "methods reporting_model = LandlabModel_methods" "updates reporting_model = []"
    by (simp_all add: reporting_model_def scheduled_model_def new_object_def)
  have cs: "clamped_steps 10 1 = replicate 10 1"
    by (simp add: clamped_steps_def)
  have p: "(0::int) < 1" by simp
  have c: "update_until exact_arith reporting_model (PInt 10) (PInt 1)
       = Some (Inr (reporting_model\<lparr>current_time := Some (PInt 10),
                                     updates := replicate 10 (PInt 1)\<rparr>))"
    using update_until_exact[OF p r0(1), of 10] r0(3) cs by simp
  have rr: "run_round exact_arith reporting_model (PInt 1) = Some (Inl (AttributeError ''report''))"
    using c
    by (simp add: run_round_def getattr_def reporting_model_def scheduled_model_def
        new_object_def check_report_def call_output_def call_method_def
        LandlabModel_methods_def)
  have d: "run exact_arith reporting_model (PInt 5) (PInt 1)
             = Some (Inl (AttributeError ''report''))"
    using run_entry[OF r0(1), of 5 1] rr r0(1)
    by (simp add: run_loop.simps[of exact_arith reporting_model] getattr_def)
  from t0 a b r0 c d show ?thesis by simp
qed

subsection \<open>Claim about the field accessor\<close>

text \<open>
  Claim C9. The accessor always returns a handle. When the grid has a node field of the
  name, it returns that field's handle and leaves the grid as it is, so nothing is
  allocated and no cell is overwritten. Otherwise the handle is that of a new array
  of the requested dtype with one zero per node, bound to the name, the arrays already
  there being kept. A second call for the name, on the grid the first call left or on
  any grid with the same binding and other cell values, returns the same handle and
  changes nothing.
\<close>

theorem field_accessor_get_or_create:
  "\<exists>h g1. get_or_create_node_field g name dtype = Inr (h, g1)
     \<and> map_of (at_node g1) name = Some h
     \<and> (\<forall>h0. map_of (at_node g) name = Some h0 \<longrightarrow> h = h0 \<and> g1 = g)
     \<and> (map_of (at_node g) name = None \<longrightarrow>
          h = length (arrays g)
          \<and> arrays g1 = arrays g @ [(dtype, replicate (number_of_nodes g) 0)]
          \<and> number_of_nodes g1 = number_of_nodes g)
     \<and> get_or_create_node_field g1 name dtype2 = Inr (h, g1)
     \<and> (\<forall>written. get_or_create_node_field (g1\<lparr>arrays := written\<rparr>) name dtype2
                     = Inr (h, g1\<lparr>arrays := written\<rparr>))"
proof (cases "map_of (at_node g) name")
  case None
  then show ?thesis
    by (simp add: get_or_create_node_field_def at_node_getitem_def add_zeros_def update_conv')
next
  case (Some h0)
  then show ?thesis
    by (simp add: get_or_create_node_field_def at_node_getitem_def)
qed

theorem field_accessor_witness:
  "get_or_create_node_field \<lparr>number_of_nodes = 4, at_node = [], arrays = []\<rparr>
       ''topographic__elevation'' ''float64''
     = Inr (0, \<lparr>number_of_nodes = 4, at_node = [(''topographic__elevation'', 0)],
                 arrays = [(''float64'', [0, 0, 0, 0])]\<rparr>)
   \<and> get_or_create_node_field
       \<lparr>number_of_nodes = 4, at_node = [(''topographic__elevation'', 0)],
        arrays = [(''float64'', [1, 2, 3, 4])]\<rparr> ''topographic__elevation'' ''float64''
     = Inr (0, \<lparr>number_of_nodes = 4, at_node = [(''topographic__elevation'', 0)],
                 arrays = [(''float64'', [1, 2, 3, 4])]\<rparr>)"
  using field_accessor_get_or_create[of "\<lparr>number_of_nodes = 4, at_node = [], arrays = []\<rparr>"
      "''topographic__elevation''" "''float64''" "''float64''"]
  by (simp add: get_or_create_node_field_def at_node_getitem_def add_zeros_def
      numeral_eq_Suc)

end
